theory Spec2Isabelle
  imports Complex_Main "HOL-Library.Word" "HOL-Library.Multiset" "HOL-Library.Product_Lexorder"
    "HOL-Library.List_Lexorder"
begin

section \<open>Data model of evaluate\_11ay\_mu\_mimo.cc\<close>

type_synonym u8 = "8 word"
type_synonym u16 = "16 word"
type_synonym u32 = "32 word"
type_synonym u64 = "64 word"

type_synonym Mac48Address = "48 word"

text \<open>
  An antenna configuration is a pair (antenna id, sector id); an AWV configuration adds the
  AWV id; a MIMO configuration holds one AWV configuration per antenna. All three ids are
  printed through a \<open>uint16_t\<close> cast, so they are 8-bit values.
\<close>

type_synonym ANTENNA_CONFIGURATION = "u8 \<times> u8"
type_synonym AWV_CONFIGURATION = "ANTENNA_CONFIGURATION \<times> u8"
type_synonym MIMO_AWV_CONFIGURATION = "AWV_CONFIGURATION list"

text \<open>
  The measurement sweep \<open>MIMO_SNR_LIST\<close> is a vector of pairs whose second component is
  the vector of per-stream signal ratios (\<open>measurements.at (j).second.at (snrIndex)\<close>).
  The first component is never read by this file and is left as a type parameter.
  A \<open>double\<close> is a real number here; the order of reals stands for the comparison
  of non-NaN doubles.
\<close>

type_synonym 'i MIMO_SNR_LIST = "('i \<times> real list) list"

text \<open>
  \<open>MEASUREMENT_AWV_IDs\<close> pairs the 16-bit TX combination id with a
  \<open>std::map<RX_ANTENNA_ID, uint16_t>\<close>; the map is the list of its (key, value) pairs in
  iteration order. A queue element pairs the minimum per-stream signal ratio with it.
\<close>

type_synonym RX_AWV_IDs = "(u8 \<times> u16) list"
type_synonym MEASUREMENT_AWV_IDs = "u16 \<times> RX_AWV_IDs"
type_synonym SNR_MEASUREMENT_AWV_IDs = "real \<times> MEASUREMENT_AWV_IDs"

text \<open>
  The part of a \<open>DmgWifiMac\<close> (and of its codebook) that the trace handlers read. The
  codebook lookups belong to the wifi module; they are taken as given functions.
\<close>

text \<open>
  The SISO feedback map is keyed by a tuple of which \<open>std::get<0>\<close> is printed as the TX
  antenna, \<open>std::get<1>\<close> as the station AID and \<open>std::get<2>\<close> as the TX sector. The SISO
  measurement map is keyed by a tuple of which only the first two components are read.
  Both maps are the lists of their (key, value) pairs in iteration order. The list of MIMO
  candidates is only handed on by this file.
\<close>

type_synonym MIMO_FEEDBACK_MAP = "((u8 \<times> u8 \<times> u8) \<times> real) list"
type_synonym MIMO_ANTENNA_COMBINATIONS_LIST = "ANTENNA_CONFIGURATION list list"
type_synonym Antenna2SectorList = "(u8 \<times> u8 list) list"

datatype ChannelAccessPeriod =
  CHANNEL_ACCESS_BTI | CHANNEL_ACCESS_ABFT | CHANNEL_ACCESS_ATI | CHANNEL_ACCESS_BHI | CHANNEL_ACCESS_DTI

record SlsCompletionAttrbitutes =
  peerStation :: Mac48Address
  accessPeriod :: ChannelAccessPeriod
  sectorID :: u8
  antennaID :: u8

record DmgWifiMac =
  GetAddress :: Mac48Address
  GetTypeOfStation :: nat
  IsAssociated :: bool
  GetBssid :: Mac48Address
  GetEDMGGroupTuples :: "u8 list" \<comment> \<open>the \<open>groupID\<close> of every tuple of the EDMG group id set\<close>
  GetMimoConfigFromRxAwvId :: "RX_AWV_IDs \<Rightarrow> Mac48Address \<Rightarrow> MIMO_AWV_CONFIGURATION"
  GetMimoConfigFromTxAwvId :: "u16 \<Rightarrow> Mac48Address \<Rightarrow> MIMO_AWV_CONFIGURATION"
  GetAntennaConfigurationShortSSW :: "u16 \<Rightarrow> ANTENNA_CONFIGURATION"
  FindKBestCombinations :: "u32 \<Rightarrow> u8 \<Rightarrow> u8 \<Rightarrow> MIMO_FEEDBACK_MAP \<Rightarrow> MIMO_ANTENNA_COMBINATIONS_LIST"

record SLS_PARAMETERS =
  srcNodeID :: u32
  dstNodeID :: u32
  wifiMac :: DmgWifiMac

record MIMO_PARAMETERS =
  srcNodeID :: u32
  dstNodeID :: u32
  srcWifiMac :: DmgWifiMac
  dstWifiMac :: DmgWifiMac

text \<open>
  What the handlers read from outside their arguments: the trace index of the Q-D
  propagation engine and the library conversion \<open>RatioToDb\<close>.
\<close>

record env =
  GetCurrentTraceIndex :: u32
  Now_GetNanoSeconds :: u64
  apNodeId :: u32 \<comment> \<open>\<open>apWifiNetDevice->GetNode ()->GetId ()\<close>\<close>
  RatioToDb :: "real \<Rightarrow> real"

text \<open>The global variables of the file that a handler reads or writes (lines 58-80).\<close>

record globals =
  macTxDataFailed :: u64
  transmittedPackets :: u64
  droppedPackets :: u64
  receivedPackets :: u64
  csv :: bool
  beamformedLinks :: u8
  firstDti1 :: bool
  firstDti2 :: bool
  muMimoCompleted :: bool
  kBestCombinations :: u32

definition initial_globals :: globals where
  "initial_globals =
     \<lparr>macTxDataFailed = 0, transmittedPackets = 0, droppedPackets = 0, receivedPackets = 0,
      csv = False, beamformedLinks = 0, firstDti1 = True, firstDti2 = True,
      muMimoCompleted = False, kBestCombinations = 15\<rparr>"

text \<open>
  The calls a handler makes on the MAC layer, the codebook and the scheduler, in the order
  it makes them.
\<close>

datatype action =
    PrintSnrTable
  | SendBrpFbckFrame Mac48Address bool
  | AppendAwvsForSuMimoBFT_27
  | StartMuMimoMimoPhase MIMO_ANTENNA_COMBINATIONS_LIST bool
  | Perform_TXSS_TXOP Mac48Address
  | Schedule_StartMuMimoBeamforming bool u8

datatype error =
    OutOfRange \<comment> \<open>\<open>std::out_of_range\<close>, thrown by \<open>vector::at\<close>\<close>
  | InvalidIterator \<comment> \<open>dereferencing \<open>begin ()\<close> of an empty container\<close>

text \<open>
  \<open>vector::at\<close>. The index expression is computed in \<open>int\<close> (the operands are promoted)
  and converted to \<open>size_t\<close>: a negative value becomes a huge one and is out of range.
\<close>

definition vec_at :: "'a list \<Rightarrow> int \<Rightarrow> error + 'a" where
  "vec_at xs i = (if 0 \<le> i \<and> i < int (length xs) then Inr (xs ! nat i) else Inl OutOfRange)"

text \<open>Running a fallible step over a list, stopping at the first exception.\<close>

fun mapM :: "('a \<Rightarrow> error + 'b) \<Rightarrow> 'a list \<Rightarrow> error + 'b list" where
  "mapM f [] = Inr []"
| "mapM f (x # xs) =
     (case f x of
        Inl e \<Rightarrow> Inl e
      | Inr y \<Rightarrow> (case mapM f xs of Inl e \<Rightarrow> Inl e | Inr ys \<Rightarrow> Inr (y # ys)))"

subsection \<open>Trace files\<close>

text \<open>
  A trace file is the list of its lines. A header line is the list of its column names, a
  name followed by a number where the source appends one. A data line is a record of the
  values written between two \<open>std::endl\<close>.
\<close>

datatype hcell = Col string | ColN string u16

datatype 'r line = Header "hcell list" | Row 'r

fun rows :: "'r line list \<Rightarrow> 'r list" where
  "rows [] = []"
| "rows (Header h # ls) = rows ls"
| "rows (Row r # ls) = r # rows ls"

record mimo_row =
  SRC_ID :: u32
  DST_ID :: u32
  TRACE_IDX :: u32
  TX_CONFIG :: "(u16 \<times> u16 \<times> u16) list"
  RX_CONFIG :: "(u16 \<times> u16 \<times> u16) list"
  SNR :: "real list"
  min_Stream_SNR :: real

record mimo_streams =
  outputMimoPhase :: "mimo_row line list"
  outputMimoPhaseR :: "mimo_row line list"

section \<open>MuMimoMimoPhaseMeasurements: the drain of the queue\<close>

text \<open>
  Modelled from the spec: the declaration of \<open>SNR_MEASUREMENT_AWV_IDs_QUEUE\<close> is not part of
  the file; section 4.4 describes it as a priority structure keyed by minQuality, max-first.
  The queue is the list of its elements; \<open>top\<close> is the greatest element in the order of the
  pairs (first the signal ratio, then the ids), \<open>pop\<close> removes it.
\<close>

definition queue_top :: "SNR_MEASUREMENT_AWV_IDs list \<Rightarrow> SNR_MEASUREMENT_AWV_IDs" where
  "queue_top q = fold max (tl q) (hd q)"

definition queue_pop :: "SNR_MEASUREMENT_AWV_IDs list \<Rightarrow> SNR_MEASUREMENT_AWV_IDs list" where
  "queue_pop q = remove1 (queue_top q) q"

text \<open>Line 294: the block of the sweep for TX combination \<open>txId\<close> and RX combination \<open>rxId\<close>.\<close>

definition fetch_measurements ::
  "'i MIMO_SNR_LIST \<Rightarrow> u8 \<Rightarrow> u16 \<Rightarrow> RX_AWV_IDs \<Rightarrow> error + 'i MIMO_SNR_LIST" where
  "fetch_measurements mimoMeasurements rxCombinationsTested txId rxIds =
     mapM (\<lambda>rxId. vec_at mimoMeasurements
                    ((uint txId - 1) * uint rxCombinationsTested + uint (snd rxId) - 1)) rxIds"

text \<open>Lines 298-307: the first \<open>n\<close> entries of a configuration, each through \<open>vector::at\<close>.\<close>

definition config_cells :: "MIMO_AWV_CONFIGURATION \<Rightarrow> u8 \<Rightarrow> error + (u16 \<times> u16 \<times> u16) list" where
  "config_cells combination n =
     mapM (\<lambda>i. case vec_at combination (int i) of
                  Inl e \<Rightarrow> Inl e
                | Inr c \<Rightarrow> Inr (ucast (fst (fst c)), ucast (snd (fst c)), ucast (snd c)))
          [0..<unat n]"

text \<open>
  Lines 308-316: the two nested loops visit \<open>j = 0 .. nRxAntennas - 1\<close> once for every
  \<open>i\<close>, and \<open>snrIndex\<close> is an 8-bit counter incremented at every visit.
\<close>

fun snr_cells :: "env \<Rightarrow> 'i MIMO_SNR_LIST \<Rightarrow> nat list \<Rightarrow> u8 \<Rightarrow> error + real list" where
  "snr_cells E measurements [] snrIndex = Inr []"
| "snr_cells E measurements (j # js) snrIndex =
     (case vec_at measurements (int j) of
        Inl e \<Rightarrow> Inl e
      | Inr m \<Rightarrow>
         (case vec_at (snd m) (uint snrIndex) of
            Inl e \<Rightarrow> Inl e
          | Inr v \<Rightarrow>
             (case snr_cells E measurements js (snrIndex + 1) of
                Inl e \<Rightarrow> Inl e
              | Inr vs \<Rightarrow> Inr (RatioToDb E v # vs))))"

definition visits :: "u8 \<Rightarrow> u8 \<Rightarrow> nat list" where
  "visits nTxAntennas nRxAntennas = concat (replicate (unat nTxAntennas) [0..<unat nRxAntennas])"

text \<open>Lines 296-317 (and again 321-342): one line of a trace file.\<close>

definition write_row ::
  "env \<Rightarrow> MIMO_PARAMETERS \<Rightarrow> MIMO_AWV_CONFIGURATION \<Rightarrow> MIMO_AWV_CONFIGURATION \<Rightarrow>
   'i MIMO_SNR_LIST \<Rightarrow> u8 \<Rightarrow> u8 \<Rightarrow> real \<Rightarrow> error + mimo_row" where
  "write_row E parameters txCombination rxCombination measurements nTxAntennas nRxAntennas top_first =
     (case config_cells txCombination nTxAntennas of
        Inl e \<Rightarrow> Inl e
      | Inr tx \<Rightarrow>
         (case config_cells rxCombination nRxAntennas of
            Inl e \<Rightarrow> Inl e
          | Inr rx \<Rightarrow>
             (case snr_cells E measurements (visits nTxAntennas nRxAntennas) 0 of
                Inl e \<Rightarrow> Inl e
              | Inr snrs \<Rightarrow>
                 Inr \<lparr>SRC_ID = srcNodeID parameters + 1, DST_ID = dstNodeID parameters + 1,
                      TRACE_IDX = GetCurrentTraceIndex E, TX_CONFIG = tx, RX_CONFIG = rx,
                      SNR = snrs, min_Stream_SNR = RatioToDb E top_first\<rparr>)))"

text \<open>
  Lines 274-345, the body of the \<open>while\<close> loop for the element \<open>entry\<close> on top of the queue:
  the line goes to the full trace, and to the reduced trace when RX configurations may
  differ or the TX id has not been written there yet. The reduced branch evaluates the
  same expressions a second time.
\<close>

definition drain_body ::
  "env \<Rightarrow> MIMO_PARAMETERS \<Rightarrow> Mac48Address \<Rightarrow> 'i MIMO_SNR_LIST \<Rightarrow> bool \<Rightarrow> u8 \<Rightarrow> u8 \<Rightarrow> u8 \<Rightarrow>
   u16 list \<Rightarrow> mimo_streams \<Rightarrow> SNR_MEASUREMENT_AWV_IDs \<Rightarrow> error + (u16 list \<times> mimo_streams)" where
  "drain_body E parameters from mimoMeasurements differentRxConfigs nTxAntennas nRxAntennas
       rxCombinationsTested txIds out entry =
     (let awvId = snd entry;
          rxCombination = GetMimoConfigFromRxAwvId (srcWifiMac parameters) (snd awvId) from;
          txCombination = GetMimoConfigFromTxAwvId (dstWifiMac parameters) (fst awvId)
                            (GetAddress (dstWifiMac parameters));
          txId = fst awvId
      in case fetch_measurements mimoMeasurements rxCombinationsTested txId (snd awvId) of
           Inl e \<Rightarrow> Inl e
         | Inr measurements \<Rightarrow>
            (case write_row E parameters txCombination rxCombination measurements
                    nTxAntennas nRxAntennas (fst entry) of
               Inl e \<Rightarrow> Inl e
             | Inr r \<Rightarrow>
                (let out1 = out\<lparr>outputMimoPhase := outputMimoPhase out @ [Row r]\<rparr>
                 in if differentRxConfigs \<or> fst awvId \<notin> set txIds
                    then (case write_row E parameters txCombination rxCombination measurements
                                 nTxAntennas nRxAntennas (fst entry) of
                            Inl e \<Rightarrow> Inl e
                          | Inr rR \<Rightarrow>
                             Inr (txIds @ [fst (snd entry)],
                                  out1\<lparr>outputMimoPhaseR := outputMimoPhaseR out1 @ [Row rR]\<rparr>))
                    else Inr (txIds, out1))))"

function drain ::
  "env \<Rightarrow> MIMO_PARAMETERS \<Rightarrow> Mac48Address \<Rightarrow> 'i MIMO_SNR_LIST \<Rightarrow> bool \<Rightarrow> u8 \<Rightarrow> u8 \<Rightarrow> u8 \<Rightarrow>
   u16 list \<Rightarrow> mimo_streams \<Rightarrow> SNR_MEASUREMENT_AWV_IDs list \<Rightarrow> error + mimo_streams" where
  "drain E parameters from mimoMeasurements differentRxConfigs nTxAntennas nRxAntennas
       rxCombinationsTested txIds out minSnr =
     (if minSnr = [] then Inr out
      else case drain_body E parameters from mimoMeasurements differentRxConfigs nTxAntennas
                  nRxAntennas rxCombinationsTested txIds out (queue_top minSnr) of
             Inl e \<Rightarrow> Inl e
           | Inr (txIds', out') \<Rightarrow>
               drain E parameters from mimoMeasurements differentRxConfigs nTxAntennas
                 nRxAntennas rxCombinationsTested txIds' out' (queue_pop minSnr))"
  by pat_completeness auto
termination
proof (relation "measure (\<lambda>(E, parameters, from, mimoMeasurements, differentRxConfigs, nTxAntennas,
                             nRxAntennas, rxCombinationsTested, txIds, out, minSnr). length minSnr)")
  show "wf (measure (\<lambda>(E :: env, parameters :: MIMO_PARAMETERS, from :: Mac48Address,
                        mimoMeasurements :: 'i MIMO_SNR_LIST, differentRxConfigs :: bool,
                        nTxAntennas :: u8, nRxAntennas :: u8, rxCombinationsTested :: u8,
                        txIds :: u16 list, out :: mimo_streams,
                        minSnr :: SNR_MEASUREMENT_AWV_IDs list). length minSnr))"
    by simp
next
  fix minSnr :: "SNR_MEASUREMENT_AWV_IDs list"
  fix E :: env and parameters :: MIMO_PARAMETERS and "from" :: Mac48Address
    and mimoMeasurements :: "'i MIMO_SNR_LIST" and differentRxConfigs :: bool
    and nTxAntennas nRxAntennas rxCombinationsTested :: u8
    and txIds x y :: "u16 list" and out z :: mimo_streams
  assume nonempty: "minSnr \<noteq> []"
  have fold_in: "fold max xs x \<in> insert x (set xs)" for xs and x :: SNR_MEASUREMENT_AWV_IDs
    by (induction xs arbitrary: x) (auto simp: max_def)
  from nonempty have "queue_top minSnr \<in> set minSnr"
    using fold_in [of "tl minSnr" "hd minSnr"] by (cases minSnr) (auto simp: queue_top_def)
  then have "length (queue_pop minSnr) < length minSnr"
    using nonempty by (simp add: queue_pop_def length_remove1)
  then show "((E, parameters, from, mimoMeasurements, differentRxConfigs, nTxAntennas, nRxAntennas,
                rxCombinationsTested, y, z, queue_pop minSnr),
               (E, parameters, from, mimoMeasurements, differentRxConfigs, nTxAntennas, nRxAntennas,
                rxCombinationsTested, txIds, out, minSnr))
              \<in> measure (\<lambda>(E, parameters, from, mimoMeasurements, differentRxConfigs, nTxAntennas,
                             nRxAntennas, rxCombinationsTested, txIds, out, minSnr). length minSnr)"
    by simp
qed

declare drain.simps [simp del]

subsection \<open>The loop seen from outside\<close>

text \<open>The elements in the order in which the loop reads them from \<open>top ()\<close>.\<close>

function pop_order :: "SNR_MEASUREMENT_AWV_IDs list \<Rightarrow> SNR_MEASUREMENT_AWV_IDs list" where
  "pop_order q = (if q = [] then [] else queue_top q # pop_order (queue_pop q))"
  by pat_completeness auto
termination
proof (relation "measure length")
  show "wf (measure (length :: SNR_MEASUREMENT_AWV_IDs list \<Rightarrow> nat))"
    by simp
next
  fix q :: "SNR_MEASUREMENT_AWV_IDs list"
  assume nonempty: "q \<noteq> []"
  have fold_in: "fold max xs x \<in> insert x (set xs)" for xs and x :: SNR_MEASUREMENT_AWV_IDs
    by (induction xs arbitrary: x) (auto simp: max_def)
  from nonempty have "queue_top q \<in> set q"
    using fold_in [of "tl q" "hd q"] by (cases q) (auto simp: queue_top_def)
  then show "(queue_pop q, q) \<in> measure length"
    using nonempty by (simp add: queue_pop_def length_remove1)
qed

declare pop_order.simps [simp del]

text \<open>
  The line of one queue element: what lines 286-317 compute from the element, the sweep
  and the two codebooks.
\<close>

definition entry_row ::
  "env \<Rightarrow> MIMO_PARAMETERS \<Rightarrow> Mac48Address \<Rightarrow> 'i MIMO_SNR_LIST \<Rightarrow> u8 \<Rightarrow> u8 \<Rightarrow> u8 \<Rightarrow>
   SNR_MEASUREMENT_AWV_IDs \<Rightarrow> error + mimo_row" where
  "entry_row E parameters from mimoMeasurements nTxAntennas nRxAntennas rxCombinationsTested entry =
     (case fetch_measurements mimoMeasurements rxCombinationsTested (fst (snd entry))
             (snd (snd entry)) of
        Inl e \<Rightarrow> Inl e
      | Inr measurements \<Rightarrow>
          write_row E parameters
            (GetMimoConfigFromTxAwvId (dstWifiMac parameters) (fst (snd entry))
               (GetAddress (dstWifiMac parameters)))
            (GetMimoConfigFromRxAwvId (srcWifiMac parameters) (snd (snd entry)) from)
            measurements nTxAntennas nRxAntennas (fst entry))"

text \<open>
  The decisions of line 318 along a sequence of TX ids, \<open>seen\<close> being the vector
  \<open>txIds\<close> before the first of them; and the lines that reach the reduced trace.
\<close>

fun written :: "bool \<Rightarrow> u16 list \<Rightarrow> u16 list \<Rightarrow> bool list" where
  "written d seen [] = []"
| "written d seen (t # ts) =
     (if d \<or> t \<notin> set seen then True # written d (seen @ [t]) ts else False # written d seen ts)"

definition reduced_rows ::
  "bool \<Rightarrow> u16 list \<Rightarrow> SNR_MEASUREMENT_AWV_IDs list \<Rightarrow> 'r list \<Rightarrow> 'r list" where
  "reduced_rows d seen es rs =
     map snd (filter fst (zip (written d seen (map (\<lambda>e. fst (snd e)) es)) rs))"

subsection \<open>Header lines and the whole handler\<close>

text \<open>
  \<open>for (uint8_t i = 1; i <= n; i++)\<close>: the counter is 8 bits wide and wraps from 255 to 0,
  so the loop does not end when \<open>n = 255\<close>. Not returning is the value \<open>None\<close>.
\<close>

partial_function (option) header_loop_le ::
  "u8 \<Rightarrow> u8 \<Rightarrow> (u8 \<Rightarrow> hcell list) \<Rightarrow> hcell list \<Rightarrow> hcell list option" where
  "header_loop_le i n body line =
     (if i \<le> n then header_loop_le (i + 1) n body (line @ body i) else Some line)"

text \<open>
  \<open>for (uint8_t i = 0; i < nRxAntennas * nTxAntennas; i++)\<close>: the product is an \<open>int\<close>, and
  the 8-bit counter never reaches a bound above 255.
\<close>

partial_function (option) header_loop_lt ::
  "u8 \<Rightarrow> int \<Rightarrow> (u8 \<Rightarrow> hcell list) \<Rightarrow> hcell list \<Rightarrow> hcell list option" where
  "header_loop_lt i n body line =
     (if uint i < n then header_loop_lt (i + 1) n body (line @ body i) else Some line)"

text \<open>Lines 243-256 (and again 259-272): the header line of a MIMO trace file.\<close>

definition mimo_header :: "u8 \<Rightarrow> u8 \<Rightarrow> hcell list option" where
  "mimo_header nTxAntennas nRxAntennas =
     (case header_loop_le 1 nTxAntennas
             (\<lambda>i. [ColN ''TX_ANTENNA_ID'' (ucast i), ColN ''TX_SECTOR_ID'' (ucast i),
                   ColN ''TX_AWV_ID'' (ucast i)])
             [Col ''SRC_ID'', Col ''DST_ID'', Col ''TRACE_IDX''] of
        None \<Rightarrow> None
      | Some l1 \<Rightarrow>
         (case header_loop_le 1 nRxAntennas
                 (\<lambda>i. [ColN ''RX_ANTENNA_ID'' (ucast i), ColN ''RX_SECTOR_ID'' (ucast i),
                       ColN ''RX_AWV_ID'' (ucast i)]) l1 of
            None \<Rightarrow> None
          | Some l2 \<Rightarrow>
             (case header_loop_lt 0 (uint nRxAntennas * uint nTxAntennas) (\<lambda>i. [Col ''SNR'']) l2 of
                None \<Rightarrow> None
              | Some l3 \<Rightarrow> Some (l3 @ [Col ''min_Stream_SNR'']))))"

text \<open>
  Lines 232-346. The result is \<open>None\<close> when a header loop does not end, \<open>Some (Inl e)\<close>
  when an exception leaves the handler, and \<open>Some (Inr out)\<close> with the two trace files
  when the handler returns.
\<close>

definition MuMimoMimoPhaseMeasurements ::
  "env \<Rightarrow> MIMO_PARAMETERS \<Rightarrow> Mac48Address \<Rightarrow> 'i MIMO_SNR_LIST \<Rightarrow> SNR_MEASUREMENT_AWV_IDs list \<Rightarrow>
   bool \<Rightarrow> u8 \<Rightarrow> u8 \<Rightarrow> u8 \<Rightarrow> (error + mimo_streams) option" where
  "MuMimoMimoPhaseMeasurements E parameters from mimoMeasurements minSnr differentRxConfigs
       nTxAntennas nRxAntennas rxCombinationsTested =
     (case mimo_header nTxAntennas nRxAntennas of
        None \<Rightarrow> None
      | Some h \<Rightarrow>
         (case mimo_header nTxAntennas nRxAntennas of
            None \<Rightarrow> None
          | Some hR \<Rightarrow>
             Some (drain E parameters from mimoMeasurements differentRxConfigs nTxAntennas
                     nRxAntennas rxCombinationsTested []
                     \<lparr>outputMimoPhase = [Header h], outputMimoPhaseR = [Header hR]\<rparr> minSnr)))"

section \<open>The other trace handlers\<close>

subsection \<open>MuMimoSisoPhaseMeasurements and MuMimoSisoPhaseComplete\<close>

type_synonym siso_row = "u32 \<times> u32 \<times> u32 \<times> u16 \<times> u16 \<times> u16 \<times> real \<times> u64"


text \<open>
  Lines 176-201: the feedback map is written out, the K best combinations are asked of
  the MAC, the AWVs are appended to the codebook and the MIMO phase is started. The
  codebook is the parametric one that \<open>main\<close> installs, so the \<open>DynamicCast\<close> succeeds.
\<close>

definition MuMimoSisoPhaseComplete ::
  "env \<Rightarrow> globals \<Rightarrow> SLS_PARAMETERS \<Rightarrow> MIMO_FEEDBACK_MAP \<Rightarrow> u8 \<Rightarrow> u8 \<Rightarrow>
   siso_row line list \<times> action list" where
  "MuMimoSisoPhaseComplete E g parameters feedbackMap numberOfTxAntennas numberOfRxAntennas =
     (let outputSisoPhase =
            Header [Col ''SRC_ID'', Col ''DST_ID'', Col ''TRACE_IDX'', Col ''STA_AID'',
                    Col ''TX_ANTENNA_ID'', Col ''TX_SECTOR_ID'', Col ''SNR'', Col ''Timestamp'']
            # map (\<lambda>it.
                     Row (SLS_PARAMETERS.srcNodeID parameters + 1,
                          SLS_PARAMETERS.dstNodeID parameters + 1, GetCurrentTraceIndex E,
                          ucast (fst (snd (fst it))), ucast (fst (fst it)),
                          ucast (snd (snd (fst it))), RatioToDb E (snd it), Now_GetNanoSeconds E))
                  feedbackMap;
          mimoCandidates =
            FindKBestCombinations (wifiMac parameters) (kBestCombinations g)
              numberOfTxAntennas numberOfRxAntennas feedbackMap;
          useAwvsInMimoPhase = False
      in (outputSisoPhase,
          [AppendAwvsForSuMimoBFT_27, StartMuMimoMimoPhase mimoCandidates useAwvsInMimoPhase]))"

text \<open>Lines 145-153.\<close>

definition MuMimoSisoFbckPolled :: "SLS_PARAMETERS \<Rightarrow> Mac48Address \<Rightarrow> action list" where
  "MuMimoSisoFbckPolled parameters from =
     (let useAwvsInMimoPhase = False in [SendBrpFbckFrame from useAwvsInMimoPhase])"

subsection \<open>MuMimoMimoCandidatesSelected\<close>

type_synonym candidates_row = "u32 \<times> u32 \<times> u32 \<times> (u16 \<times> u16) list"

text \<open>
  Lines 203-230. The candidate map is the list of its (antenna, sector list) pairs in
  iteration order, so \<open>begin ()\<close> is the head of the list. Both counts are stored in a
  \<open>uint8_t\<close>.

  Line 219 reads the size of the first list through \<open>begin ()\<close> without testing the map.
  On an empty map \<open>begin ()\<close> is \<open>end ()\<close>: the read has undefined behaviour, throws
  nothing, and yields whatever the memory behind the end iterator holds. That value,
  as stored in the 8-bit variable, is the argument \<open>endSize\<close>; no claim depends on it.
\<close>

text \<open>Lines 224-227: the cells of line \<open>i\<close>, one pair for every antenna of the map.\<close>

definition candidate_cells :: "Antenna2SectorList \<Rightarrow> nat \<Rightarrow> error + (u16 \<times> u16) list" where
  "candidate_cells txCandidates i =
     mapM (\<lambda>it. case vec_at (snd it) (int i) of
                  Inl e \<Rightarrow> Inl e
                | Inr sector \<Rightarrow> Inr (ucast (fst it), ucast sector)) txCandidates"

text \<open>Lines 220-229: the lines \<open>0 .. n - 1\<close>.\<close>

definition candidate_lines ::
  "env \<Rightarrow> SLS_PARAMETERS \<Rightarrow> Antenna2SectorList \<Rightarrow> nat \<Rightarrow> error + candidates_row line list" where
  "candidate_lines E parameters txCandidates n =
     mapM (\<lambda>i. case candidate_cells txCandidates i of
                  Inl e \<Rightarrow> Inl e
                | Inr cells \<Rightarrow>
                    Inr (Row (SLS_PARAMETERS.srcNodeID parameters + 1,
                              SLS_PARAMETERS.dstNodeID parameters + 1,
                              GetCurrentTraceIndex E, cells)))
          [0..<n]"

definition MuMimoMimoCandidatesSelected ::
  "env \<Rightarrow> SLS_PARAMETERS \<Rightarrow> u8 \<Rightarrow> Antenna2SectorList \<Rightarrow> u8 \<Rightarrow>
   (error + candidates_row line list) option" where
  "MuMimoMimoCandidatesSelected E parameters muGroupId txCandidates endSize =
     (let numberOfAntennas = (of_nat (length txCandidates) :: u8)
      in case header_loop_le 1 numberOfAntennas
                (\<lambda>i. [ColN ''ANTENNA_ID'' (ucast i), ColN ''SECTOR_ID'' (ucast i)])
                [Col ''SRC_ID'', Col ''DST_ID'', Col ''TRACE_IDX''] of
           None \<Rightarrow> None
         | Some h \<Rightarrow>
            Some (let numberOfCandidates =
                        (if txCandidates = [] then endSize
                         else of_nat (length (snd (hd txCandidates))) :: u8)
                  in case candidate_lines E parameters txCandidates (unat numberOfCandidates) of
                       Inl e \<Rightarrow> Inl e
                     | Inr ls \<Rightarrow> Inr (Header h # ls)))"

subsection \<open>Handlers that read or write the global variables\<close>

type_synonym sls_row = "u32 \<times> u32 \<times> u16 \<times> u16 \<times> nat \<times> u32 \<times> u64"

text \<open>Lines 82-103. The counter of beamformed links is incremented inside the non-CSV branch.\<close>

definition SLSCompleted ::
  "env \<Rightarrow> globals \<Rightarrow> sls_row line list \<Rightarrow> SLS_PARAMETERS \<Rightarrow> SlsCompletionAttrbitutes \<Rightarrow>
   globals \<times> sls_row line list \<times> action list" where
  "SLSCompleted E g stream parameters attributes =
     (let stream' = stream @
            [Row (SLS_PARAMETERS.srcNodeID parameters + 1, GetCurrentTraceIndex E,
                  ucast (sectorID attributes), ucast (antennaID attributes),
                  GetTypeOfStation (wifiMac parameters), apNodeId E + 1, Now_GetNanoSeconds E)]
      in if \<not> csv g
         then (if accessPeriod attributes = CHANNEL_ACCESS_DTI
               then (g\<lparr>beamformedLinks := beamformedLinks g + 1\<rparr>, stream', [PrintSnrTable])
               else (g, stream', [PrintSnrTable]))
         else (g, stream', []))"

definition MacTxDataFailed :: "globals \<Rightarrow> globals" where
  "MacTxDataFailed g = g\<lparr>macTxDataFailed := macTxDataFailed g + 1\<rparr>"

definition PhyTxEnd :: "globals \<Rightarrow> globals" where
  "PhyTxEnd g = g\<lparr>transmittedPackets := transmittedPackets g + 1\<rparr>"

definition PhyRxDrop :: "globals \<Rightarrow> globals" where
  "PhyRxDrop g = g\<lparr>droppedPackets := droppedPackets g + 1\<rparr>"

definition PhyRxEnd :: "globals \<Rightarrow> globals" where
  "PhyRxEnd g = g\<lparr>receivedPackets := receivedPackets g + 1\<rparr>"

definition MuMimoMimoPhaseComplete :: "globals \<Rightarrow> globals" where
  "MuMimoMimoPhaseComplete g = g\<lparr>muMimoCompleted := True\<rparr>"

text \<open>Lines 356-372.\<close>

definition DataTransmissionIntervalStarted :: "globals \<Rightarrow> DmgWifiMac \<Rightarrow> globals \<times> action list" where
  "DataTransmissionIntervalStarted g mac =
     (if IsAssociated mac \<and> firstDti1 g
      then (g\<lparr>firstDti1 := False\<rparr>, [Perform_TXSS_TXOP (GetBssid mac), AppendAwvsForSuMimoBFT_27])
      else if IsAssociated mac \<and> firstDti2 g
      then (g\<lparr>firstDti2 := False\<rparr>, [Perform_TXSS_TXOP (GetBssid mac), AppendAwvsForSuMimoBFT_27])
      else (g, []))"

text \<open>
  Lines 374-386. \<open>groupTuples.begin ()->groupID\<close> is read only inside the branch, and has
  no value when the list of group tuples is empty.
\<close>

definition DataTransmissionIntervalStartedAp ::
  "globals \<Rightarrow> DmgWifiMac \<Rightarrow> error + action list" where
  "DataTransmissionIntervalStartedAp g mac =
     (if beamformedLinks g = 4 \<and> \<not> muMimoCompleted g
      then (case GetEDMGGroupTuples mac of
              [] \<Rightarrow> Inl InvalidIterator
            | groupID # _ \<Rightarrow> Inr [Schedule_StartMuMimoBeamforming True groupID])
      else Inr [])"

subsection \<open>A run of the simulation as a sequence of handler invocations\<close>

text \<open>
  The simulator invokes the handlers one after the other. Only the handlers above touch
  the global variables or call into the MAC layer; the handlers that only write a trace
  file of their own leave this state as it is. The state is the global variables and the
  SLS trace file; the calls made so far are collected beside it. An exception ends the
  run.
\<close>

datatype event =
    Ev_SLSCompleted SLS_PARAMETERS SlsCompletionAttrbitutes
  | Ev_MacTxDataFailed
  | Ev_PhyTxEnd
  | Ev_PhyRxDrop
  | Ev_PhyRxEnd
  | Ev_MuMimoSisoFbckPolled SLS_PARAMETERS Mac48Address
  | Ev_MuMimoSisoPhaseComplete SLS_PARAMETERS MIMO_FEEDBACK_MAP u8 u8
  | Ev_MuMimoMimoPhaseComplete
  | Ev_DataTransmissionIntervalStarted DmgWifiMac
  | Ev_DataTransmissionIntervalStartedAp DmgWifiMac

fun dispatch ::
  "env \<Rightarrow> globals \<times> sls_row line list \<Rightarrow> event \<Rightarrow>
   error + ((globals \<times> sls_row line list) \<times> action list)" where
  "dispatch E (g, stream) (Ev_SLSCompleted parameters attributes) =
     (case SLSCompleted E g stream parameters attributes of
        (g', stream', acts) \<Rightarrow> Inr ((g', stream'), acts))"
| "dispatch E (g, stream) Ev_MacTxDataFailed = Inr ((MacTxDataFailed g, stream), [])"
| "dispatch E (g, stream) Ev_PhyTxEnd = Inr ((PhyTxEnd g, stream), [])"
| "dispatch E (g, stream) Ev_PhyRxDrop = Inr ((PhyRxDrop g, stream), [])"
| "dispatch E (g, stream) Ev_PhyRxEnd = Inr ((PhyRxEnd g, stream), [])"
| "dispatch E (g, stream) (Ev_MuMimoSisoFbckPolled parameters from) =
     Inr ((g, stream), MuMimoSisoFbckPolled parameters from)"
| "dispatch E (g, stream) (Ev_MuMimoSisoPhaseComplete parameters feedbackMap nTx nRx) =
     Inr ((g, stream), snd (MuMimoSisoPhaseComplete E g parameters feedbackMap nTx nRx))"
| "dispatch E (g, stream) Ev_MuMimoMimoPhaseComplete = Inr ((MuMimoMimoPhaseComplete g, stream), [])"
| "dispatch E (g, stream) (Ev_DataTransmissionIntervalStarted mac) =
     (case DataTransmissionIntervalStarted g mac of (g', acts) \<Rightarrow> Inr ((g', stream), acts))"
| "dispatch E (g, stream) (Ev_DataTransmissionIntervalStartedAp mac) =
     (case DataTransmissionIntervalStartedAp g mac of
        Inl e \<Rightarrow> Inl e
      | Inr acts \<Rightarrow> Inr ((g, stream), acts))"

fun run ::
  "env \<Rightarrow> globals \<times> sls_row line list \<Rightarrow> event list \<Rightarrow>
   error + ((globals \<times> sls_row line list) \<times> action list)" where
  "run E st [] = Inr (st, [])"
| "run E st (ev # evs) =
     (case dispatch E st ev of
        Inl e \<Rightarrow> Inl e
      | Inr (st', acts) \<Rightarrow>
         (case run E st' evs of
            Inl e \<Rightarrow> Inl e
          | Inr (st'', acts') \<Rightarrow> Inr (st'', acts @ acts')))"

text \<open>The calls that schedule the start of MU-MIMO beamforming training.\<close>

definition is_schedule :: "action \<Rightarrow> bool" where
  "is_schedule a = (case a of Schedule_StartMuMimoBeamforming b groupID \<Rightarrow> True | _ \<Rightarrow> False)"

section \<open>Conditions of the accesses, and the conversion to decibels\<close>

text \<open>
  The accesses that lines 286-317 make for one queue element, stated on the data: every
  block index lies inside the sweep, the two codebook configurations have an entry for
  every antenna, and at every visit of the nested loops the RX antenna has a block with
  a value at the position of the 8-bit counter.
\<close>

definition entry_ok ::
  "MIMO_PARAMETERS \<Rightarrow> Mac48Address \<Rightarrow> 'i MIMO_SNR_LIST \<Rightarrow> u8 \<Rightarrow> u8 \<Rightarrow> u8 \<Rightarrow>
   SNR_MEASUREMENT_AWV_IDs \<Rightarrow> bool" where
  "entry_ok parameters from mimoMeasurements nTxAntennas nRxAntennas rxCombinationsTested entry =
     ((\<forall>rxId\<in>set (snd (snd entry)).
         0 \<le> (uint (fst (snd entry)) - 1) * uint rxCombinationsTested + (uint (snd rxId) - 1) \<and>
         (uint (fst (snd entry)) - 1) * uint rxCombinationsTested + (uint (snd rxId) - 1)
           < int (length mimoMeasurements)) \<and>
      unat nTxAntennas \<le>
        length (GetMimoConfigFromTxAwvId (dstWifiMac parameters) (fst (snd entry))
                  (GetAddress (dstWifiMac parameters))) \<and>
      unat nRxAntennas \<le>
        length (GetMimoConfigFromRxAwvId (srcWifiMac parameters) (snd (snd entry)) from) \<and>
      (\<forall>k<unat nTxAntennas * unat nRxAntennas.
         k mod unat nRxAntennas < length (snd (snd entry)) \<and>
         k mod 256 <
           length (snd (mimoMeasurements !
                          nat ((uint (fst (snd entry)) - 1) * uint rxCombinationsTested +
                               (uint (snd (snd (snd entry) ! (k mod unat nRxAntennas))) - 1))))))"





section \<open>An example configuration\<close>

text \<open>
  A station with one antenna whose codebook maps every id to a configuration of one
  entry, the library conversion to decibels, and an SLS completion in the DTI.
\<close>

definition example_mac :: DmgWifiMac where
  "example_mac =
     \<lparr>GetAddress = 1, GetTypeOfStation = 0, IsAssociated = True, GetBssid = 1,
      GetEDMGGroupTuples = [1],
      GetMimoConfigFromRxAwvId = (\<lambda>rxIds from. [((1, 1), 0)]),
      GetMimoConfigFromTxAwvId = (\<lambda>txId address. [((1, ucast txId), 0)]),
      GetAntennaConfigurationShortSSW = (\<lambda>i. (1, 1)),
      FindKBestCombinations = (\<lambda>k nTx nRx feedbackMap. [[(1, 1)]])\<rparr>"

definition example_env :: env where
  "example_env =
     \<lparr>GetCurrentTraceIndex = 0, Now_GetNanoSeconds = 0, apNodeId = 0,
      RatioToDb = (\<lambda>ratio. 10 * log 10 ratio)\<rparr>"

definition example_sls :: SLS_PARAMETERS where
  "example_sls =
     \<lparr>SLS_PARAMETERS.srcNodeID = 0, SLS_PARAMETERS.dstNodeID = 1, wifiMac = example_mac\<rparr>"

definition example_attributes :: SlsCompletionAttrbitutes where
  "example_attributes =
     \<lparr>peerStation = 2, accessPeriod = CHANNEL_ACCESS_DTI, sectorID = 3, antennaID = 1\<rparr>"

text \<open>
  A sweep of two TX combinations times two RX combinations with one stream each, and a
  queue with one element for every pair; two of the minima tie.
\<close>

definition example_mimo :: MIMO_PARAMETERS where
  "example_mimo = \<lparr>srcNodeID = 1, dstNodeID = 0, srcWifiMac = example_mac, dstWifiMac = example_mac\<rparr>"

definition example_sweep :: "nat MIMO_SNR_LIST" where
  "example_sweep = [(0, [1 / 10]), (1, [9 / 10]), (2, [4 / 10]), (3, [9 / 10])]"

definition example_queue :: "SNR_MEASUREMENT_AWV_IDs list" where
  "example_queue =
     [(1 / 10, 1, [(1, 1)]), (9 / 10, 1, [(1, 2)]), (4 / 10, 2, [(1, 1)]), (9 / 10, 2, [(1, 2)])]"

definition example_header :: "hcell list" where
  "example_header =
     [Col ''SRC_ID'', Col ''DST_ID'', Col ''TRACE_IDX'', ColN ''TX_ANTENNA_ID'' 1,
      ColN ''TX_SECTOR_ID'' 1, ColN ''TX_AWV_ID'' 1, ColN ''RX_ANTENNA_ID'' 1,
      ColN ''RX_SECTOR_ID'' 1, ColN ''RX_AWV_ID'' 1, Col ''SNR'', Col ''min_Stream_SNR'']"

definition example_row :: "u16 \<Rightarrow> real \<Rightarrow> mimo_row" where
  "example_row txSector ratio =
     \<lparr>SRC_ID = 2, DST_ID = 1, TRACE_IDX = 0, TX_CONFIG = [(1, txSector, 0)],
      RX_CONFIG = [(1, 1, 0)], SNR = [10 * log 10 ratio], min_Stream_SNR = 10 * log 10 ratio\<rparr>"

definition example_streams :: mimo_streams where
  "example_streams =
     \<lparr>outputMimoPhase =
        [Header example_header, Row (example_row 2 (9 / 10)), Row (example_row 1 (9 / 10)),
         Row (example_row 2 (4 / 10)), Row (example_row 1 (1 / 10))],
      outputMimoPhaseR =
        [Header example_header, Row (example_row 2 (9 / 10)), Row (example_row 1 (9 / 10))]\<rparr>"




section \<open>Properties of the queue\<close>


lemma fold_max_in: "fold max xs x \<in> insert x (set xs)" for x :: "'a::linorder"
  by (induction xs arbitrary: x) (auto simp: max_def)

lemma fold_max_ge: "y \<in> insert x (set xs) \<Longrightarrow> y \<le> fold max xs x" for x :: "'a::linorder"
proof (induction xs arbitrary: x y)
  case Nil
  then show ?case by simp
next
  case (Cons a xs)
  have IH: "z \<le> fold max xs w" if "z \<in> insert w (set xs)" for z w
    using Cons.IH that by blast
  have top: "max a x \<le> fold max xs (max a x)" by (rule IH) simp
  have "x \<le> fold max xs (max a x)" using top by (meson max.cobounded2 order_trans)
  moreover have "a \<le> fold max xs (max a x)" using top by (meson max.cobounded1 order_trans)
  moreover have "y \<in> set xs \<Longrightarrow> y \<le> fold max xs (max a x)" by (rule IH) simp
  ultimately show ?case using Cons.prems by auto
qed

lemma queue_top_in: "q \<noteq> [] \<Longrightarrow> queue_top q \<in> set q"
  using fold_max_in [of "tl q" "hd q"] by (cases q) (auto simp: queue_top_def)

lemma queue_top_ge: "e \<in> set q \<Longrightarrow> e \<le> queue_top q"
  using fold_max_ge [of e "hd q" "tl q"] by (cases q) (auto simp: queue_top_def)

lemma length_queue_pop: "q \<noteq> [] \<Longrightarrow> length (queue_pop q) < length q"
  using queue_top_in [of q] by (simp add: queue_pop_def length_remove1)

lemma mset_pop_order: "mset (pop_order q) = mset q"
proof (induction q rule: pop_order.induct)
  case (1 q)
  show ?case
  proof (cases "q = []")
    case True
    then show ?thesis by (simp add: pop_order.simps)
  next
    case False
    then have "mset (pop_order (queue_pop q)) = mset (queue_pop q)" using 1 by simp
    moreover have "mset (queue_pop q) + {#queue_top q#} = mset q"
      using queue_top_in [OF False] by (simp add: queue_pop_def)
    ultimately show ?thesis using False by (subst pop_order.simps) (simp)
  qed
qed

lemma set_queue_pop: "set (queue_pop q) \<subseteq> set q"
  by (simp add: queue_pop_def set_remove1_subset)

lemma sorted_pop_order: "sorted (rev (pop_order q))"
proof (induction q rule: pop_order.induct)
  case (1 q)
  show ?case
  proof (cases "q = []")
    case True
    then show ?thesis by (simp add: pop_order.simps)
  next
    case False
    have "set (pop_order (queue_pop q)) = set (queue_pop q)"
      using mset_pop_order [of "queue_pop q"] by (metis set_mset_mset)
    then have "\<forall>e \<in> set (pop_order (queue_pop q)). e \<le> queue_top q"
      using set_queue_pop [of q] queue_top_ge by blast
    then show ?thesis using False 1
      by (subst pop_order.simps) (auto simp: sorted_append)
  qed
qed

section \<open>Properties of the drain\<close>

lemma drain_body_eq:
  "drain_body E P from mm d nTx nRx rct txIds out entry =
     (case entry_row E P from mm nTx nRx rct entry of
        Inl e \<Rightarrow> Inl e
      | Inr r \<Rightarrow>
          Inr (if d \<or> fst (snd entry) \<notin> set txIds
               then (txIds @ [fst (snd entry)],
                     \<lparr>outputMimoPhase = outputMimoPhase out @ [Row r],
                      outputMimoPhaseR = outputMimoPhaseR out @ [Row r]\<rparr>)
               else (txIds, \<lparr>outputMimoPhase = outputMimoPhase out @ [Row r],
                             outputMimoPhaseR = outputMimoPhaseR out\<rparr>)))"
  by (simp add: drain_body_def entry_row_def Let_def split: sum.splits)

lemma mapM_length: "mapM f xs = Inr ys \<Longrightarrow> length ys = length xs"
  by (induction xs arbitrary: ys) (auto split: sum.splits)

lemma drain_eq:
  "drain E P from mm d nTx nRx rct txIds out q =
     (case mapM (entry_row E P from mm nTx nRx rct) (pop_order q) of
        Inl e \<Rightarrow> Inl e
      | Inr rs \<Rightarrow>
          Inr \<lparr>outputMimoPhase = outputMimoPhase out @ map Row rs,
               outputMimoPhaseR = outputMimoPhaseR out @ map Row (reduced_rows d txIds (pop_order q) rs)\<rparr>)"
proof (induction q arbitrary: txIds out rule: pop_order.induct)
  case (1 q)
  show ?case
  proof (cases "q = []")
    case True
    then show ?thesis by (subst drain.simps) (simp add: pop_order.simps reduced_rows_def)
  next
    case False
    note IH = 1 [OF False]
    have po: "pop_order q = queue_top q # pop_order (queue_pop q)"
      using False by (subst pop_order.simps) simp
    show ?thesis
    proof (cases "entry_row E P from mm nTx nRx rct (queue_top q)")
      case (Inl e)
      then show ?thesis using False by (subst drain.simps) (simp add: po drain_body_eq)
    next
      case (Inr r)
      show ?thesis using False Inr
        by (subst drain.simps) (simp add: po drain_body_eq IH reduced_rows_def split: sum.splits)
    qed
  qed
qed

lemma rows_map_Row: "rows (map Row rs) = rs"
  by (induction rs) simp_all

lemma mapM_nth: "mapM f xs = Inr ys \<Longrightarrow> i < length xs \<Longrightarrow> f (xs ! i) = Inr (ys ! i)"
  by (induction xs arbitrary: ys i) (auto split: sum.splits simp: nth_Cons split: nat.splits)

lemma mapM_map: "mapM f xs = Inr ys \<Longrightarrow> map f xs = map Inr ys"
  by (induction xs arbitrary: ys) (auto split: sum.splits)

lemma handler_result:
  assumes "MuMimoMimoPhaseMeasurements E P from mm q d nTx nRx rct = Some (Inr out)"
  shows "\<exists>rs. mapM (entry_row E P from mm nTx nRx rct) (pop_order q) = Inr rs
            \<and> rows (outputMimoPhase out) = rs
            \<and> rows (outputMimoPhaseR out) = reduced_rows d [] (pop_order q) rs"
proof -
  from assms obtain h hR where
    d: "drain E P from mm d nTx nRx rct [] \<lparr>outputMimoPhase = [Header h], outputMimoPhaseR = [Header hR]\<rparr> q = Inr out"
    by (auto simp: MuMimoMimoPhaseMeasurements_def split: option.splits)
  show ?thesis
  proof (cases "mapM (entry_row E P from mm nTx nRx rct) (pop_order q)")
    case (Inl e)
    then show ?thesis using d by (simp add: drain_eq)
  next
    case (Inr rs)
    then have "out = \<lparr>outputMimoPhase = [Header h] @ map Row rs,
                      outputMimoPhaseR = [Header hR] @ map Row (reduced_rows d [] (pop_order q) rs)\<rparr>"
      using d by (simp add: drain_eq)
    then show ?thesis using Inr by (simp add: rows_map_Row)
  qed
qed

lemma length_written: "length (written d seen ts) = length ts"
  by (induction ts arbitrary: seen) auto

lemma written_nth:
  "i < length ts \<Longrightarrow>
   written d seen ts ! i = (d \<or> (ts ! i \<notin> set seen \<and> ts ! i \<notin> set (take i ts)))"
proof (induction ts arbitrary: seen i)
  case Nil
  then show ?case by simp
next
  case (Cons t ts)
  show ?case
  proof (cases i)
    case 0
    then show ?thesis by simp
  next
    case (Suc k)
    then have k: "k < length ts" using Cons.prems by simp
    show ?thesis
    proof (cases "d \<or> t \<notin> set seen")
      case True
      then have "written d seen (t # ts) ! i = written d (seen @ [t]) ts ! k"
        using Suc by simp
      also have "\<dots> = (d \<or> (ts ! k \<notin> set (seen @ [t]) \<and> ts ! k \<notin> set (take k ts)))"
        by (rule Cons.IH [OF k])
      finally show ?thesis using Suc by auto
    next
      case False
      then have "written d seen (t # ts) ! i = written d seen ts ! k"
        using Suc by simp
      also have "\<dots> = (d \<or> (ts ! k \<notin> set seen \<and> ts ! k \<notin> set (take k ts)))"
        by (rule Cons.IH [OF k])
      finally show ?thesis using Suc False by auto
    qed
  qed
qed

lemma filter_zip_nths:
  "length bs = length rs \<Longrightarrow> map snd (filter fst (zip bs rs)) = nths rs {i. i < length bs \<and> bs ! i}"
proof (induction bs rs rule: list_induct2)
  case Nil
  then show ?case by simp
next
  case (Cons b bs r rs)
  have "{j. Suc j \<in> {i. i < length (b # bs) \<and> (b # bs) ! i}} = {i. i < length bs \<and> bs ! i}"
    by auto
  then show ?case using Cons by (simp add: nths_Cons)
qed

lemma nths_cong_length:
  "(\<And>i. i < length xs \<Longrightarrow> (i \<in> A) = (i \<in> B)) \<Longrightarrow> nths xs A = nths xs B"
  unfolding nths_def
  by (rule arg_cong [where f = "map fst"], rule filter_cong) (auto simp: set_zip)

lemma not_in_take_iff:
  "i < length ts \<Longrightarrow> (ts ! i \<notin> set (take i ts)) = (\<forall>j<i. ts ! j \<noteq> ts ! i)"
proof -
  assume i: "i < length ts"
  have "set (take i ts) = {ts ! j |j. j < i}" using i by (fastforce simp: in_set_conv_nth)
  then show ?thesis by auto
qed

lemma reduced_rows_nths:
  assumes "length rs = length es"
  shows "reduced_rows d [] es rs =
           nths rs {i. d \<or> (\<forall>j<i. fst (snd (es ! j)) \<noteq> fst (snd (es ! i)))}"
proof -
  let ?ts = "map (\<lambda>e. fst (snd e)) es"
  have "reduced_rows d [] es rs = nths rs {i. i < length ?ts \<and> written d [] ?ts ! i}"
    using assms by (simp add: reduced_rows_def filter_zip_nths length_written)
  also have "\<dots> = nths rs {i. d \<or> (\<forall>j<i. fst (snd (es ! j)) \<noteq> fst (snd (es ! i)))}"
  proof (rule nths_cong_length)
    fix i assume "i < length rs"
    then have i: "i < length ?ts" using assms by simp
    have "(\<forall>j<i. ?ts ! j \<noteq> ?ts ! i) = (\<forall>j<i. fst (snd (es ! j)) \<noteq> fst (snd (es ! i)))"
      using i by auto
    then show "(i \<in> {i. i < length ?ts \<and> written d [] ?ts ! i}) =
               (i \<in> {i. d \<or> (\<forall>j<i. fst (snd (es ! j)) \<noteq> fst (snd (es ! i)))})"
      using i written_nth [OF i, of d "[]"] not_in_take_iff [OF i] by simp
  qed
  finally show ?thesis .
qed

lemma written_distinct:
  "distinct (map snd (filter fst (zip (written False seen ts) ts))) \<and>
   set (map snd (filter fst (zip (written False seen ts) ts))) \<inter> set seen = {}"
proof (induction ts arbitrary: seen)
  case Nil
  then show ?case by simp
next
  case (Cons t ts)
  show ?case
  proof (cases "t \<in> set seen")
    case True
    then show ?thesis using Cons [of seen] by simp
  next
    case False
    then show ?thesis using Cons [of "seen @ [t]"] by auto
  qed
qed

lemma first_occurrences_distinct:
  "distinct (nths ts {i. \<forall>j<i. ts ! j \<noteq> ts ! i})" for ts :: "u16 list"
proof -
  have "nths ts {i. \<forall>j<i. ts ! j \<noteq> ts ! i} = nths ts {i. i < length ts \<and> written False [] ts ! i}"
    by (rule nths_cong_length) (simp add: written_nth not_in_take_iff)
  also have "\<dots> = map snd (filter fst (zip (written False [] ts) ts))"
    by (simp add: filter_zip_nths length_written)
  finally show ?thesis using written_distinct [of "[]" ts] by simp
qed

section \<open>Loops with an 8-bit counter\<close>

lemma u8_unat_bound: "unat n < 256" for n :: u8
  using unsigned_less [of n] by simp

lemma u8_unat_255: "n \<noteq> 255 \<Longrightarrow> unat n \<noteq> 255" for n :: u8
proof
  assume n: "n \<noteq> 255" and u: "unat n = 255"
  have "of_nat (unat n) = (of_nat 255 :: u8)" by (simp only: u)
  then have "n = 255" by simp
  with n show False by simp
qed

lemma u8_succ: "i \<le> n \<Longrightarrow> n \<noteq> 255 \<Longrightarrow> unat (i + 1) = Suc (unat i)" for i n :: u8
proof -
  assume "i \<le> n" "n \<noteq> 255"
  then have "unat i < 255"
    using u8_unat_255 [of n] u8_unat_bound [of n] by (simp add: word_le_nat_alt)
  then show ?thesis by (simp add: unat_word_ariths)
qed

lemma u8_succ_lt: "uint i < p \<Longrightarrow> p \<le> 255 \<Longrightarrow> unat (i + 1) = Suc (unat i)" for i :: u8
proof -
  assume "uint i < p" "p \<le> 255"
  moreover have "int (unat i) = uint i" by simp
  ultimately have "unat i < 255" by linarith
  then show ?thesis by (simp add: unat_word_ariths)
qed

lemma u8_le_255: "i \<le> 255" for i :: u8
  using u8_unat_bound [of i] by (simp add: word_le_nat_alt)

lemma header_loop_le_diverges:
  assumes "header_loop_le i n body line = Some y"
  shows "n \<noteq> 255"
proof (rule header_loop_le.raw_induct [where P = "\<lambda>i n body line y. n \<noteq> 255", OF _ assms])
  fix f :: "u8 \<Rightarrow> u8 \<Rightarrow> (u8 \<Rightarrow> hcell list) \<Rightarrow> hcell list \<Rightarrow> hcell list option"
  fix i n :: u8 and body :: "u8 \<Rightarrow> hcell list" and line y :: "hcell list"
  assume IH: "\<And>i n body line y. f i n body line = Some y \<Longrightarrow> n \<noteq> 255"
    and eq: "(if i \<le> n then f (i + 1) n body (line @ body i) else Some line) = Some y"
  show "n \<noteq> 255"
  proof (cases "i \<le> n")
    case True
    then show ?thesis using IH eq by simp
  next
    case False
    then show ?thesis using u8_le_255 [of i] by auto
  qed
qed

lemma header_loop_lt_diverges:
  assumes "header_loop_lt i p body line = Some y"
  shows "p \<le> 255"
proof (rule header_loop_lt.raw_induct [where P = "\<lambda>i p body line y. p \<le> 255", OF _ assms])
  fix f :: "u8 \<Rightarrow> int \<Rightarrow> (u8 \<Rightarrow> hcell list) \<Rightarrow> hcell list \<Rightarrow> hcell list option"
  fix i :: u8 and p :: int and body :: "u8 \<Rightarrow> hcell list" and line y :: "hcell list"
  assume IH: "\<And>i p body line y. f i p body line = Some y \<Longrightarrow> p \<le> 255"
    and eq: "(if uint i < p then f (i + 1) p body (line @ body i) else Some line) = Some y"
  show "p \<le> 255"
  proof (cases "uint i < p")
    case True
    then show ?thesis using IH eq by simp
  next
    case False
    moreover have "int (unat i) = uint i" by simp
    ultimately show ?thesis using u8_unat_bound [of i] by linarith
  qed
qed

lemma header_loop_le_returns:
  "n \<noteq> 255 \<Longrightarrow>
   header_loop_le i n body line =
     Some (line @ concat (map (\<lambda>k. body (of_nat k)) [unat i..<Suc (unat n)]))"
proof (induction "Suc (unat n) - unat i" arbitrary: i line)
  case 0
  then have "\<not> i \<le> n" by (simp add: word_le_nat_alt)
  then show ?case using 0 by (subst header_loop_le.simps) simp
next
  case (Suc m)
  then have le: "i \<le> n" by (simp add: word_le_nat_alt)
  have s: "unat (i + 1) = Suc (unat i)" using le Suc.prems by (rule u8_succ)
  have "m = Suc (unat n) - unat (i + 1)" using Suc.hyps(2) s by simp
  then have IH: "header_loop_le (i + 1) n body (line @ body i) =
      Some ((line @ body i) @ concat (map (\<lambda>k. body (of_nat k)) [unat (i + 1)..<Suc (unat n)]))"
    using Suc.hyps(1) Suc.prems by blast
  have "[unat i..<Suc (unat n)] = unat i # [unat (i + 1)..<Suc (unat n)]"
    using le s by (simp add: upt_conv_Cons word_le_nat_alt)
  then show ?case using le IH by (subst header_loop_le.simps) simp
qed

lemma header_loop_lt_returns:
  "p \<le> 255 \<Longrightarrow>
   header_loop_lt i p body line =
     Some (line @ concat (map (\<lambda>k. body (of_nat k)) [unat i..<nat p]))"
proof (induction "nat p - unat i" arbitrary: i line)
  case 0
  have "int (unat i) = uint i" by simp
  then have "\<not> uint i < p" using 0 by linarith
  then show ?case using 0 by (subst header_loop_lt.simps) simp
next
  case (Suc m)
  have iu: "int (unat i) = uint i" by simp
  then have lt: "uint i < p" using Suc.hyps(2) by linarith
  have s: "unat (i + 1) = Suc (unat i)" using lt Suc.prems by (rule u8_succ_lt)
  have "m = nat p - unat (i + 1)" using Suc.hyps(2) s by simp
  then have IH: "header_loop_lt (i + 1) p body (line @ body i) =
      Some ((line @ body i) @ concat (map (\<lambda>k. body (of_nat k)) [unat (i + 1)..<nat p]))"
    using Suc.hyps(1) Suc.prems by blast
  have "unat i < nat p" using lt iu by linarith
  then have "[unat i..<nat p] = unat i # [unat (i + 1)..<nat p]"
    using s by (simp add: upt_conv_Cons)
  then show ?case using lt IH by (subst header_loop_lt.simps) simp
qed

lemma mimo_header_returns_iff:
  "(\<exists>h. mimo_header nTx nRx = Some h) =
     (nTx \<noteq> 255 \<and> nRx \<noteq> 255 \<and> uint nRx * uint nTx \<le> 255)"
proof
  assume "\<exists>h. mimo_header nTx nRx = Some h"
  then obtain l1 l2 l3 where
    "header_loop_le 1 nTx
        (\<lambda>i. [ColN ''TX_ANTENNA_ID'' (ucast i), ColN ''TX_SECTOR_ID'' (ucast i),
              ColN ''TX_AWV_ID'' (ucast i)])
        [Col ''SRC_ID'', Col ''DST_ID'', Col ''TRACE_IDX''] = Some l1"
    "header_loop_le 1 nRx
        (\<lambda>i. [ColN ''RX_ANTENNA_ID'' (ucast i), ColN ''RX_SECTOR_ID'' (ucast i),
              ColN ''RX_AWV_ID'' (ucast i)]) l1 = Some l2"
    "header_loop_lt 0 (uint nRx * uint nTx) (\<lambda>i. [Col ''SNR'']) l2 = Some l3"
    unfolding mimo_header_def by (auto split: option.splits)
  then show "nTx \<noteq> 255 \<and> nRx \<noteq> 255 \<and> uint nRx * uint nTx \<le> 255"
    using header_loop_le_diverges header_loop_lt_diverges by blast
next
  assume "nTx \<noteq> 255 \<and> nRx \<noteq> 255 \<and> uint nRx * uint nTx \<le> 255"
  then show "\<exists>h. mimo_header nTx nRx = Some h"
    unfolding mimo_header_def by (simp add: header_loop_le_returns header_loop_lt_returns)
qed

section \<open>The handlers of the global state\<close>

lemma dispatch_csv_keeps:
  assumes "csv g" and "beamformedLinks g = 0"
  shows "\<exists>g' stream' acts.
           dispatch E (g, stream) ev = Inr ((g', stream'), acts) \<and> csv g' \<and>
           beamformedLinks g' = 0 \<and> filter is_schedule acts = []"
  using assms
  by (cases ev)
     (simp_all add: SLSCompleted_def MacTxDataFailed_def PhyTxEnd_def PhyRxDrop_def PhyRxEnd_def
        MuMimoSisoFbckPolled_def MuMimoSisoPhaseComplete_def MuMimoMimoPhaseComplete_def
        DataTransmissionIntervalStarted_def DataTransmissionIntervalStartedAp_def is_schedule_def
        Let_def)

text \<open>
  C9: with CSV output enabled the counter of beamformed links stays 0 through any sequence
  of handler invocations, so the AP's DTI handler never finds it equal to 4: no exception
  ends the run and no call of the run schedules \<open>StartMuMimoBeamforming\<close>.
\<close>

theorem csv_never_schedules_mu_mimo:
  assumes "csv g" and "beamformedLinks g = 0"
  shows "\<exists>g' stream' acts.
           run E (g, stream) evs = Inr ((g', stream'), acts) \<and> csv g' \<and> beamformedLinks g' = 0 \<and>
           filter is_schedule acts = []"
  using assms
proof (induction evs arbitrary: g stream)
  case Nil
  then show ?case by simp
next
  case (Cons ev evs)
  from Cons.prems obtain g1 stream1 acts1 where
    d: "dispatch E (g, stream) ev = Inr ((g1, stream1), acts1)" and
    g1: "csv g1" "beamformedLinks g1 = 0" and a1: "filter is_schedule acts1 = []"
    using dispatch_csv_keeps [of g E "stream" ev] by blast
  from Cons.IH [OF g1] obtain g2 stream2 acts2 where
    r: "run E (g1, stream1) evs = Inr ((g2, stream2), acts2)" and
    g2: "csv g2" "beamformedLinks g2 = 0" and a2: "filter is_schedule acts2 = []"
    by blast
  show ?case using d r g2 a1 a2 by simp
qed

theorem csv_never_schedules_mu_mimo_witness:
  "csv (initial_globals\<lparr>csv := True\<rparr>) \<and> beamformedLinks (initial_globals\<lparr>csv := True\<rparr>) = 0 \<and>
   run example_env (initial_globals\<lparr>csv := True\<rparr>, [])
     [Ev_SLSCompleted example_sls example_attributes, Ev_SLSCompleted example_sls example_attributes,
      Ev_SLSCompleted example_sls example_attributes, Ev_SLSCompleted example_sls example_attributes,
      Ev_DataTransmissionIntervalStartedAp example_mac] =
   Inr ((initial_globals\<lparr>csv := True\<rparr>,
         [Row (1, 0, 3, 1, 0, 1, 0), Row (1, 0, 3, 1, 0, 1, 0),
          Row (1, 0, 3, 1, 0, 1, 0), Row (1, 0, 3, 1, 0, 1, 0)]), [])"
proof -
  have h: "csv (initial_globals\<lparr>csv := True\<rparr>)" "beamformedLinks (initial_globals\<lparr>csv := True\<rparr>) = 0"
    by (simp_all add: initial_globals_def)
  show ?thesis
    using h csv_never_schedules_mu_mimo [OF h, of example_env "[]"
      "[Ev_SLSCompleted example_sls example_attributes, Ev_SLSCompleted example_sls example_attributes,
        Ev_SLSCompleted example_sls example_attributes, Ev_SLSCompleted example_sls example_attributes,
        Ev_DataTransmissionIntervalStartedAp example_mac]"]
    by (simp add: initial_globals_def example_env_def example_sls_def example_attributes_def
          example_mac_def SLSCompleted_def DataTransmissionIntervalStartedAp_def)
qed

text \<open>
  Without CSV output the same sequence of invocations (four SLS completions in the DTI,
  then the start of a DTI at the AP) does schedule the training.
\<close>

lemma without_csv_mu_mimo_is_scheduled:
  "run example_env (initial_globals, [])
     [Ev_SLSCompleted example_sls example_attributes, Ev_SLSCompleted example_sls example_attributes,
      Ev_SLSCompleted example_sls example_attributes, Ev_SLSCompleted example_sls example_attributes,
      Ev_DataTransmissionIntervalStartedAp example_mac] =
   Inr ((initial_globals\<lparr>beamformedLinks := 4\<rparr>,
         [Row (1, 0, 3, 1, 0, 1, 0), Row (1, 0, 3, 1, 0, 1, 0),
          Row (1, 0, 3, 1, 0, 1, 0), Row (1, 0, 3, 1, 0, 1, 0)]),
        [PrintSnrTable, PrintSnrTable, PrintSnrTable, PrintSnrTable,
         Schedule_StartMuMimoBeamforming True 1])"
  by (simp add: initial_globals_def example_env_def example_sls_def example_attributes_def
        example_mac_def SLSCompleted_def DataTransmissionIntervalStartedAp_def)

text \<open>
  C8: at the completion of the SISO phase the handler starts the MIMO phase exactly once,
  as its last call, and with the list that \<open>FindKBestCombinations\<close> returns for the
  configured K, the two antenna counts and the feedback map it was given.
\<close>

theorem siso_completion_starts_mimo_with_ranked_candidates:
  "\<exists>pre.
     snd (MuMimoSisoPhaseComplete E g parameters feedbackMap numberOfTxAntennas numberOfRxAntennas) =
       pre @ [StartMuMimoMimoPhase
                (FindKBestCombinations (wifiMac parameters) (kBestCombinations g)
                   numberOfTxAntennas numberOfRxAntennas feedbackMap) False] \<and>
     (\<forall>candidates b. StartMuMimoMimoPhase candidates b \<notin> set pre)"
  by (rule exI [of _ "[AppendAwvsForSuMimoBFT_27]"]) (simp add: MuMimoSisoPhaseComplete_def)

text \<open>
  C7 (as amended): no flag gates the AWV refinement. The handler of the SISO completion
  appends the AWVs to the codebook on every invocation, before it starts the MIMO phase,
  and the flag it passes on is always false; the handler of the feedback poll sends its
  frame with the flag false and appends nothing.
\<close>

theorem awvs_appended_whatever_the_flag:
  "snd (MuMimoSisoPhaseComplete E g parameters feedbackMap numberOfTxAntennas numberOfRxAntennas) =
     [AppendAwvsForSuMimoBFT_27,
      StartMuMimoMimoPhase
        (FindKBestCombinations (wifiMac parameters) (kBestCombinations g)
           numberOfTxAntennas numberOfRxAntennas feedbackMap) False] \<and>
   MuMimoSisoFbckPolled parameters from = [SendBrpFbckFrame from False]"
  by (simp add: MuMimoSisoPhaseComplete_def MuMimoSisoFbckPolled_def)

text \<open>
  C7 as stated fails: here the flag is false and the AWVs are appended before the MIMO
  phase is started.
\<close>

theorem awvs_appended_with_flag_false_counterexample:
  "snd (MuMimoSisoPhaseComplete example_env initial_globals example_sls [] 2 1) =
     [AppendAwvsForSuMimoBFT_27, StartMuMimoMimoPhase [[(1, 1)]] False]"
  by (simp add: MuMimoSisoPhaseComplete_def example_sls_def example_mac_def)

section \<open>MuMimoMimoCandidatesSelected\<close>

lemma mapM_Inr_iff: "(\<exists>ys. mapM f xs = Inr ys) = (\<forall>x\<in>set xs. \<exists>y. f x = Inr y)"
  by (induction xs) (auto split: sum.splits)

lemma mapM_Inl: "mapM f xs = Inl e \<Longrightarrow> \<exists>x\<in>set xs. f x = Inl e"
  by (induction xs) (auto split: sum.splits)

lemma vec_at_Inr_iff: "(\<exists>y. vec_at xs i = Inr y) = (0 \<le> i \<and> i < int (length xs))"
  by (simp add: vec_at_def)

lemma vec_at_Inl: "vec_at xs i = Inl e \<Longrightarrow> e = OutOfRange"
  by (simp add: vec_at_def split: if_splits)

lemma candidate_cells_Inr_iff:
  "(\<exists>cs. candidate_cells txCandidates i = Inr cs) = (\<forall>it\<in>set txCandidates. i < length (snd it))"
  unfolding candidate_cells_def mapM_Inr_iff
  by (auto simp: vec_at_def split: sum.splits if_splits)

lemma candidate_cells_Inl: "candidate_cells txCandidates i = Inl e \<Longrightarrow> e = OutOfRange"
  unfolding candidate_cells_def
  by (drule mapM_Inl) (auto simp: vec_at_def split: sum.splits if_splits)

lemma case_row_Inr_iff:
  "(\<exists>y. (case c of Inl e \<Rightarrow> Inl e | Inr cells \<Rightarrow> Inr (g cells)) = Inr y) = (\<exists>cs. c = Inr cs)"
  by (cases c) auto

lemma case_row_Inl:
  "(case c of Inl e \<Rightarrow> Inl e | Inr cells \<Rightarrow> Inr (g cells)) = Inl e \<Longrightarrow> c = Inl e"
  by (cases c) auto

lemma candidate_lines_Inr_iff:
  "(\<exists>ls. candidate_lines E parameters txCandidates n = Inr ls) =
     (\<forall>it\<in>set txCandidates. n \<le> length (snd it))"
proof -
  have "(\<exists>ls. candidate_lines E parameters txCandidates n = Inr ls) =
          (\<forall>i\<in>set [0..<n]. \<exists>cs. candidate_cells txCandidates i = Inr cs)"
    unfolding candidate_lines_def mapM_Inr_iff case_row_Inr_iff ..
  also have "\<dots> = (\<forall>i<n. \<forall>it\<in>set txCandidates. i < length (snd it))"
    unfolding candidate_cells_Inr_iff by (simp add: Ball_def)
  also have "\<dots> = (\<forall>it\<in>set txCandidates. n \<le> length (snd it))"
  proof
    assume a: "\<forall>i<n. \<forall>it\<in>set txCandidates. i < length (snd it)"
    show "\<forall>it\<in>set txCandidates. n \<le> length (snd it)"
    proof
      fix it assume it: "it \<in> set txCandidates"
      show "n \<le> length (snd it)"
      proof (rule ccontr)
        assume "\<not> n \<le> length (snd it)"
        then have "length (snd it) < n" by simp
        with a it have "length (snd it) < length (snd it)" by blast
        then show False by simp
      qed
    qed
  next
    assume "\<forall>it\<in>set txCandidates. n \<le> length (snd it)"
    then show "\<forall>i<n. \<forall>it\<in>set txCandidates. i < length (snd it)"
      by (meson order_less_le_trans)
  qed
  finally show ?thesis .
qed

lemma candidate_lines_Inl:
  assumes "candidate_lines E parameters txCandidates n = Inl e"
  shows "e = OutOfRange"
proof -
  from assms obtain i where
    "(case candidate_cells txCandidates i of
        Inl e \<Rightarrow> Inl e
      | Inr cells \<Rightarrow>
          Inr (Row (SLS_PARAMETERS.srcNodeID parameters + 1,
                    SLS_PARAMETERS.dstNodeID parameters + 1,
                    GetCurrentTraceIndex E, cells))) = Inl e"
    unfolding candidate_lines_def by (blast dest: mapM_Inl)
  then have "candidate_cells txCandidates i = Inl e" by (rule case_row_Inl)
  then show ?thesis by (rule candidate_cells_Inl)
qed

lemma u8_of_nat_unat: "unat (of_nat n :: u8) = n mod 256"
proof -
  have "unat (of_nat n :: u8) = n mod 2 ^ LENGTH(8)" by (rule unat_of_nat)
  then show ?thesis by simp
qed

lemma u8_of_nat_eq_255: "((of_nat n :: u8) = 255) = (n mod 256 = 255)"
proof -
  have "((of_nat n :: u8) = 255) = (unat (of_nat n :: u8) = unat (255 :: u8))"
    by (rule word_unat_eq_iff)
  also have "\<dots> = (n mod 256 = 255)" by (simp only: u8_of_nat_unat) simp
  finally show ?thesis .
qed

lemma candidates_cases:
  fixes E parameters muGroupId txCandidates endSize
  defines "H \<equiv> MuMimoMimoCandidatesSelected E parameters muGroupId txCandidates endSize"
  obtains
    (never_returns) "length txCandidates mod 256 = 255" "H = None"
  | (returns) h ls where "length txCandidates mod 256 \<noteq> 255"
      "\<forall>it\<in>set txCandidates. length (snd (hd txCandidates)) mod 256 \<le> length (snd it)"
      "H = Some (Inr (Header h # ls))"
  | (out_of_range) "length txCandidates mod 256 \<noteq> 255"
      "\<not> (\<forall>it\<in>set txCandidates. length (snd (hd txCandidates)) mod 256 \<le> length (snd it))"
      "H = Some (Inl OutOfRange)"
proof -
  define numberOfAntennas :: u8 where "numberOfAntennas = of_nat (length txCandidates)"
  define numberOfCandidates :: u8 where
    "numberOfCandidates =
       (if txCandidates = [] then endSize else of_nat (length (snd (hd txCandidates))))"
  define header where
    "header = header_loop_le 1 numberOfAntennas
                (\<lambda>i. [ColN ''ANTENNA_ID'' (ucast i), ColN ''SECTOR_ID'' (ucast i)])
                [Col ''SRC_ID'', Col ''DST_ID'', Col ''TRACE_IDX'']"
  have eq: "H =
     (case header of
        None \<Rightarrow> None
      | Some h \<Rightarrow>
          Some (case candidate_lines E parameters txCandidates (unat numberOfCandidates) of
                  Inl e \<Rightarrow> Inl e
                | Inr ls \<Rightarrow> Inr (Header h # ls)))"
    unfolding H_def header_def numberOfAntennas_def numberOfCandidates_def
      MuMimoMimoCandidatesSelected_def Let_def ..
  have antennas: "(numberOfAntennas = 255) = (length txCandidates mod 256 = 255)"
    unfolding numberOfAntennas_def by (rule u8_of_nat_eq_255)
  have candidates:
    "(\<forall>it\<in>set txCandidates. unat numberOfCandidates \<le> length (snd it)) =
     (\<forall>it\<in>set txCandidates. length (snd (hd txCandidates)) mod 256 \<le> length (snd it))"
  proof (cases "txCandidates = []")
    case True
    then show ?thesis by simp
  next
    case False
    then have "unat numberOfCandidates = length (snd (hd txCandidates)) mod 256"
      unfolding numberOfCandidates_def by (simp only: if_False u8_of_nat_unat)
    then show ?thesis by simp
  qed
  show thesis
  proof (cases header)
    case None
    have "numberOfAntennas = 255"
    proof (rule ccontr)
      assume "numberOfAntennas \<noteq> 255"
      then have "\<exists>h. header = Some h"
        unfolding header_def using header_loop_le_returns by blast
      then show False using None by simp
    qed
    then have "length txCandidates mod 256 = 255" using antennas by simp
    moreover have "H = None" unfolding eq using None by simp
    ultimately show thesis by (rule never_returns)
  next
    case (Some h)
    then have "numberOfAntennas \<noteq> 255" unfolding header_def by (rule header_loop_le_diverges)
    then have n: "length txCandidates mod 256 \<noteq> 255" using antennas by simp
    show thesis
    proof (cases "candidate_lines E parameters txCandidates (unat numberOfCandidates)")
      case (Inl e)
      then have e: "e = OutOfRange" by (rule candidate_lines_Inl)
      have "\<not> (\<exists>ls. candidate_lines E parameters txCandidates (unat numberOfCandidates) = Inr ls)"
        using Inl by simp
      then have "\<not> (\<forall>it\<in>set txCandidates. length (snd (hd txCandidates)) mod 256 \<le> length (snd it))"
        unfolding candidate_lines_Inr_iff candidates .
      moreover have "H = Some (Inl OutOfRange)" unfolding eq using Some Inl e by simp
      ultimately show thesis using n by (rule out_of_range [rotated])
    next
      case (Inr ls)
      then have "\<exists>ls. candidate_lines E parameters txCandidates (unat numberOfCandidates) = Inr ls"
        by blast
      then have "\<forall>it\<in>set txCandidates. length (snd (hd txCandidates)) mod 256 \<le> length (snd it)"
        unfolding candidate_lines_Inr_iff candidates .
      moreover have "H = Some (Inr (Header h # ls))" unfolding eq using Some Inr by simp
      ultimately show thesis using n by (rule returns [rotated])
    qed
  qed
qed

text \<open>
  C10 (as amended): the trace writer takes the number of lines from the first antenna's
  list, reduced modulo 256 by the 8-bit counter, and reads every antenna's list at each
  position below that number through \<open>vector::at\<close>. It returns without error exactly
  when the number of antennas modulo 256 is not 255 and every antenna's list has at least
  (length of the first list modulo 256) entries; it throws \<open>std::out_of_range\<close> exactly
  when the first holds and some list is shorter than that; and with 255 antennas (modulo
  256) the loop of the header line never ends. An empty map has no list to be too short:
  no access is made and the handler returns.
\<close>

theorem candidates_trace_outcome:
  "((\<exists>out. MuMimoMimoCandidatesSelected E parameters muGroupId txCandidates endSize =
            Some (Inr out)) =
      (length txCandidates mod 256 \<noteq> 255 \<and>
       (\<forall>it\<in>set txCandidates. length (snd (hd txCandidates)) mod 256 \<le> length (snd it)))) \<and>
   ((MuMimoMimoCandidatesSelected E parameters muGroupId txCandidates endSize =
       Some (Inl OutOfRange)) =
      (length txCandidates mod 256 \<noteq> 255 \<and>
       \<not> (\<forall>it\<in>set txCandidates. length (snd (hd txCandidates)) mod 256 \<le> length (snd it)))) \<and>
   ((MuMimoMimoCandidatesSelected E parameters muGroupId txCandidates endSize = None) =
      (length txCandidates mod 256 = 255))"
  by (cases rule: candidates_cases [of txCandidates E parameters muGroupId endSize]) auto

theorem candidates_trace_outcome_witness:
  "length [(1 :: u8, [3, 5 :: u8]), (2, [4, 6])] mod 256 \<noteq> 255 \<and>
   MuMimoMimoCandidatesSelected example_env example_sls 0 [(1, [3, 5]), (2, [4, 6])] 0 =
     Some (Inr [Header [Col ''SRC_ID'', Col ''DST_ID'', Col ''TRACE_IDX'', ColN ''ANTENNA_ID'' 1,
                        ColN ''SECTOR_ID'' 1, ColN ''ANTENNA_ID'' 2, ColN ''SECTOR_ID'' 2],
                Row (1, 2, 0, [(1, 3), (2, 4)]), Row (1, 2, 0, [(1, 5), (2, 6)])])"
proof -
  have h: "MuMimoMimoCandidatesSelected example_env example_sls 0 [(1, [3, 5]), (2, [4, 6])] 0 =
     Some (Inr [Header [Col ''SRC_ID'', Col ''DST_ID'', Col ''TRACE_IDX'', ColN ''ANTENNA_ID'' 1,
                        ColN ''SECTOR_ID'' 1, ColN ''ANTENNA_ID'' 2, ColN ''SECTOR_ID'' 2],
                Row (1, 2, 0, [(1, 3), (2, 4)]), Row (1, 2, 0, [(1, 5), (2, 6)])])"
    by (simp add: MuMimoMimoCandidatesSelected_def example_env_def example_sls_def
          header_loop_le.simps candidate_lines_def candidate_cells_def vec_at_def
          upt_conv_Cons)
  then have ex: "\<exists>out. MuMimoMimoCandidatesSelected example_env example_sls 0
                      [(1, [3, 5]), (2, [4, 6])] 0 = Some (Inr out)"
    by (rule exI)
  have "length [(1 :: u8, [3, 5 :: u8]), (2, [4, 6])] mod 256 \<noteq> 255"
    by (rule candidates_trace_outcome [of example_env example_sls 0 "[(1, [3, 5]), (2, [4, 6])]" 0,
          THEN conjunct1, THEN iffD1, OF ex, THEN conjunct1])
  then show ?thesis using h by (rule conjI)
qed

text \<open>
  C10 as stated fails twice. The first list has 256 entries, the count stored in the
  8-bit variable is 0, and the handler returns without error although the second list
  is shorter than the first. And on an empty map the handler returns without error,
  with as many lines as the value read behind the end iterator says (here 2).
\<close>

theorem candidates_trace_truncated_count_counterexample:
  "MuMimoMimoCandidatesSelected example_env example_sls 0 [(1, replicate 256 0), (2, [])] 0 =
     Some (Inr [Header [Col ''SRC_ID'', Col ''DST_ID'', Col ''TRACE_IDX'', ColN ''ANTENNA_ID'' 1,
                        ColN ''SECTOR_ID'' 1, ColN ''ANTENNA_ID'' 2, ColN ''SECTOR_ID'' 2]]) \<and>
   length (snd ((2, []) :: u8 \<times> u8 list)) < length (snd ((1, replicate 256 0) :: u8 \<times> u8 list)) \<and>
   MuMimoMimoCandidatesSelected example_env example_sls 0 [] 2 =
     Some (Inr [Header [Col ''SRC_ID'', Col ''DST_ID'', Col ''TRACE_IDX''],
                Row (1, 2, 0, []), Row (1, 2, 0, [])])"
  by (simp add: MuMimoMimoCandidatesSelected_def example_env_def example_sls_def
        header_loop_le.simps candidate_lines_def candidate_cells_def vec_at_def upt_conv_Cons)

section \<open>MuMimoMimoPhaseMeasurements: the two traces\<close>

lemmas eval_defs =
  MuMimoMimoPhaseMeasurements_def mimo_header_def header_loop_le_returns header_loop_lt_returns
  drain_eq pop_order.simps reduced_rows_def entry_row_def queue_top_def queue_pop_def
  fetch_measurements_def write_row_def
  config_cells_def visits_def vec_at_def example_env_def example_mac_def example_mimo_def
  example_sweep_def example_queue_def upt_conv_Cons

lemma example_run:
  "MuMimoMimoPhaseMeasurements example_env example_mimo 7 example_sweep example_queue False 1 1 2 =
     Some (Inr example_streams)"
  by (simp add: eval_defs example_streams_def example_header_def example_row_def)

lemma example_pop_order:
  "pop_order example_queue =
     [(9 / 10, 2, [(1, 2)]), (9 / 10, 1, [(1, 2)]), (4 / 10, 2, [(1, 1)]), (1 / 10, 1, [(1, 1)])]"
  by (simp add: pop_order.simps example_queue_def queue_top_def queue_pop_def)

lemma sorted_wrt_nths: "sorted_wrt P xs \<Longrightarrow> sorted_wrt P (nths xs I)"
  by (induction xs arbitrary: I) (auto simp: nths_Cons dest: in_set_nthsD)

lemma fst_mono_lex: "x \<le> y \<Longrightarrow> fst x \<le> fst y" for x y :: "'a::linorder \<times> 'b::linorder"
  by (auto simp: less_eq_prod_def)

lemma descending_pop_order: "sorted_wrt (\<ge>) (map fst (pop_order q))"
proof -
  have "sorted_wrt (\<le>) (rev (pop_order q))"
    using sorted_pop_order [of q] by simp
  then have "sorted_wrt (\<ge>) (pop_order q)"
    by (simp add: sorted_wrt_rev)
  then have "sorted_wrt (\<lambda>x y. fst x \<ge> fst y) (pop_order q)"
    by (rule sorted_wrt_mono_rel [rotated]) (simp add: fst_mono_lex)
  then show ?thesis by (simp add: sorted_wrt_map)
qed

lemma mapM_map_prop:
  "mapM f xs = Inr ys \<Longrightarrow> (\<And>x y. f x = Inr y \<Longrightarrow> g y = h x) \<Longrightarrow> map g ys = map h xs"
  by (induction xs arbitrary: ys) (auto split: sum.splits)

lemma write_row_min:
  "write_row E parameters txCombination rxCombination measurements nTx nRx ratio = Inr r \<Longrightarrow>
   min_Stream_SNR r = RatioToDb E ratio"
  by (auto simp: write_row_def split: sum.splits)

lemma entry_row_min:
  "entry_row E parameters from mm nTx nRx rct entry = Inr r \<Longrightarrow>
   min_Stream_SNR r = RatioToDb E (fst entry)"
  by (auto simp: entry_row_def split: sum.splits dest: write_row_min)

lemma handler_rows:
  assumes "MuMimoMimoPhaseMeasurements E P from mm q d nTx nRx rct = Some (Inr out)"
  shows "mapM (entry_row E P from mm nTx nRx rct) (pop_order q) = Inr (rows (outputMimoPhase out))"
    and "length (rows (outputMimoPhase out)) = length (pop_order q)"
    and "rows (outputMimoPhaseR out) =
           nths (rows (outputMimoPhase out))
             {i. d \<or> (\<forall>j<i. fst (snd (pop_order q ! j)) \<noteq> fst (snd (pop_order q ! i)))}"
proof -
  from handler_result [OF assms] obtain rs where
    m: "mapM (entry_row E P from mm nTx nRx rct) (pop_order q) = Inr rs" and
    f: "rows (outputMimoPhase out) = rs" and
    r: "rows (outputMimoPhaseR out) = reduced_rows d [] (pop_order q) rs"
    by blast
  show "mapM (entry_row E P from mm nTx nRx rct) (pop_order q) = Inr (rows (outputMimoPhase out))"
    using m f by simp
  show l: "length (rows (outputMimoPhase out)) = length (pop_order q)"
    using m f by (simp add: mapM_length)
  show "rows (outputMimoPhaseR out) =
           nths (rows (outputMimoPhase out))
             {i. d \<or> (\<forall>j<i. fst (snd (pop_order q ! j)) \<noteq> fst (snd (pop_order q ! i)))}"
    using r f l by (simp add: reduced_rows_nths)
qed

lemma length_pop_order: "length (pop_order q) = length q"
  using mset_pop_order [of q] by (metis size_mset)

lemma traces_descend_of_result:
  assumes "MuMimoMimoPhaseMeasurements E parameters from mimoMeasurements minSnr differentRxConfigs
             nTxAntennas nRxAntennas rxCombinationsTested = Some (Inr out)"
  shows "\<exists>es I.
           mset es = mset minSnr \<and> sorted_wrt (\<ge>) (map fst es) \<and>
           map min_Stream_SNR (rows (outputMimoPhase out)) = map (\<lambda>e. RatioToDb E (fst e)) es \<and>
           map min_Stream_SNR (rows (outputMimoPhaseR out)) =
             map (\<lambda>e. RatioToDb E (fst e)) (nths es I) \<and>
           sorted_wrt (\<ge>) (map fst (nths es I))"
proof -
  let ?es = "pop_order minSnr"
  let ?I = "{i. differentRxConfigs \<or> (\<forall>j<i. fst (snd (?es ! j)) \<noteq> fst (snd (?es ! i)))}"
  note h = handler_rows [OF assms]
  have full: "map min_Stream_SNR (rows (outputMimoPhase out)) = map (\<lambda>e. RatioToDb E (fst e)) ?es"
    using h(1) by (rule mapM_map_prop) (rule entry_row_min)
  have "map min_Stream_SNR (rows (outputMimoPhaseR out)) =
          nths (map min_Stream_SNR (rows (outputMimoPhase out))) ?I"
    by (simp only: h(3) nths_map)
  also have "\<dots> = map (\<lambda>e. RatioToDb E (fst e)) (nths ?es ?I)"
    by (simp only: full nths_map)
  finally have reduced: "map min_Stream_SNR (rows (outputMimoPhaseR out)) =
          map (\<lambda>e. RatioToDb E (fst e)) (nths ?es ?I)" .
  have "sorted_wrt (\<ge>) (nths (map fst ?es) ?I)"
    using descending_pop_order by (rule sorted_wrt_nths)
  then have "sorted_wrt (\<ge>) (map fst (nths ?es ?I))" by (simp only: nths_map)
  then show ?thesis
    using mset_pop_order [of minSnr] descending_pop_order [of minSnr] full reduced by blast
qed

lemma emitted_count_of_result:
  assumes "MuMimoMimoPhaseMeasurements E parameters from mimoMeasurements minSnr differentRxConfigs
             nTxAntennas nRxAntennas rxCombinationsTested = Some (Inr out)"
  shows "length (rows (outputMimoPhase out)) = length minSnr"
  using handler_rows(2) [OF assms] by (simp add: length_pop_order)

lemma first_occurrence_iff:
  fixes g :: "nat \<Rightarrow> 'a"
  defines "I \<equiv> {i. \<forall>j<i. g j \<noteq> g i}"
  shows "(i \<in> I) = (\<forall>j\<in>I. j < i \<longrightarrow> g j \<noteq> g i)"
proof
  assume "i \<in> I" then show "\<forall>j\<in>I. j < i \<longrightarrow> g j \<noteq> g i" by (simp add: I_def)
next
  assume r: "\<forall>j\<in>I. j < i \<longrightarrow> g j \<noteq> g i"
  show "i \<in> I"
  proof (rule ccontr)
    assume "i \<notin> I"
    then have ex: "\<exists>j. j < i \<and> g j = g i" by (auto simp: I_def)
    define m where "m = (LEAST j. j < i \<and> g j = g i)"
    have m: "m < i \<and> g m = g i" unfolding m_def using ex by (rule LeastI_ex)
    have least: "\<And>k. k < m \<Longrightarrow> \<not> (k < i \<and> g k = g i)"
      unfolding m_def by (rule not_less_Least)
    have "m \<in> I" unfolding I_def using m least by (auto intro: less_trans)
    with r m show False by auto
  qed
qed

lemma first_tx_lines_distinct:
  "distinct (map (\<lambda>e. fst (snd e))
      (nths es {i. \<forall>j<i. fst (snd (es ! j)) \<noteq> fst (snd (es ! i))}))"
  for es :: "SNR_MEASUREMENT_AWV_IDs list"
proof -
  let ?ts = "map (\<lambda>e. fst (snd e)) es"
  have "map (\<lambda>e. fst (snd e)) (nths es {i. \<forall>j<i. fst (snd (es ! j)) \<noteq> fst (snd (es ! i))}) =
        nths ?ts {i. \<forall>j<i. fst (snd (es ! j)) \<noteq> fst (snd (es ! i))}"
    by (simp only: nths_map)
  also have "\<dots> = nths ?ts {i. \<forall>j<i. ?ts ! j \<noteq> ?ts ! i}"
    by (rule nths_cong_length) auto
  finally show ?thesis using first_occurrences_distinct [of ?ts] by simp
qed

lemma reduced_trace_of_result:
  assumes "MuMimoMimoPhaseMeasurements E parameters from mimoMeasurements minSnr differentRxConfigs
             nTxAntennas nRxAntennas rxCombinationsTested = Some (Inr out)"
  shows "\<exists>I. map Inr (rows (outputMimoPhase out)) =
               map (entry_row E parameters from mimoMeasurements nTxAntennas nRxAntennas
                      rxCombinationsTested) (pop_order minSnr) \<and>
             rows (outputMimoPhaseR out) = nths (rows (outputMimoPhase out)) I \<and>
             (\<forall>i. (i \<in> I) =
                    (differentRxConfigs \<or>
                     (\<forall>j\<in>I. j < i \<longrightarrow>
                        fst (snd (pop_order minSnr ! j)) \<noteq> fst (snd (pop_order minSnr ! i))))) \<and>
             (differentRxConfigs \<longrightarrow> rows (outputMimoPhaseR out) = rows (outputMimoPhase out)) \<and>
             (\<not> differentRxConfigs \<longrightarrow>
                distinct (map (\<lambda>e. fst (snd e)) (nths (pop_order minSnr) I)))"
proof -
  let ?es = "pop_order minSnr"
  let ?I = "{i. differentRxConfigs \<or> (\<forall>j<i. fst (snd (?es ! j)) \<noteq> fst (snd (?es ! i)))}"
  note h = handler_rows [OF assms]
  have full: "map Inr (rows (outputMimoPhase out)) =
               map (entry_row E parameters from mimoMeasurements nTxAntennas nRxAntennas
                      rxCombinationsTested) ?es"
    using h(1) by (simp add: mapM_map)
  have iff: "(i \<in> ?I) =
               (differentRxConfigs \<or>
                (\<forall>j\<in>?I. j < i \<longrightarrow> fst (snd (?es ! j)) \<noteq> fst (snd (?es ! i))))" for i
  proof (cases differentRxConfigs)
    case True
    then show ?thesis by simp
  next
    case False
    then show ?thesis
      using first_occurrence_iff [of i "\<lambda>i. fst (snd (?es ! i))"] by simp
  qed
  have all: "differentRxConfigs \<longrightarrow> rows (outputMimoPhaseR out) = rows (outputMimoPhase out)"
    using h(3) by (simp add: nths_all)
  have dist: "\<not> differentRxConfigs \<longrightarrow> distinct (map (\<lambda>e. fst (snd e)) (nths ?es ?I))"
    using first_tx_lines_distinct [of ?es] by simp
  show ?thesis
    using full h(3) iff all dist by (intro exI [of _ ?I]) blast
qed

lemma vec_at_Inr: "vec_at xs i = Inr y \<Longrightarrow> 0 \<le> i \<and> i < int (length xs) \<and> y = xs ! nat i"
  by (auto simp: vec_at_def split: if_splits)

lemma mapM_Inr_set: "mapM f xs = Inr ys \<Longrightarrow> x \<in> set xs \<Longrightarrow> \<exists>y. f x = Inr y"
  using mapM_Inr_iff [of f xs] by blast

lemma fetch_measurements_Inr:
  assumes "fetch_measurements mm rct txId rxIds = Inr ms"
  shows "ms = map (\<lambda>rxId. mm ! nat ((uint txId - 1) * uint rct + (uint (snd rxId) - 1))) rxIds"
    and "\<forall>rxId\<in>set rxIds. 0 \<le> (uint txId - 1) * uint rct + (uint (snd rxId) - 1) \<and>
                          (uint txId - 1) * uint rct + (uint (snd rxId) - 1) < int (length mm)"
proof -
  let ?f = "\<lambda>rxId. vec_at mm ((uint txId - 1) * uint rct + uint (snd rxId) - 1)"
  have m: "mapM ?f rxIds = Inr ms" using assms by (simp add: fetch_measurements_def)
  have "map (\<lambda>y. y) ms = map (\<lambda>rxId. mm ! nat ((uint txId - 1) * uint rct + (uint (snd rxId) - 1))) rxIds"
    using m
  proof (rule mapM_map_prop)
    fix x y assume "?f x = Inr y"
    then have "y = mm ! nat ((uint txId - 1) * uint rct + uint (snd x) - 1)"
      by (auto dest: vec_at_Inr)
    moreover have "(uint txId - 1) * uint rct + uint (snd x) - 1 =
                   (uint txId - 1) * uint rct + (uint (snd x) - 1)" by simp
    ultimately show "y = mm ! nat ((uint txId - 1) * uint rct + (uint (snd x) - 1))" by simp
  qed
  then show "ms = map (\<lambda>rxId. mm ! nat ((uint txId - 1) * uint rct + (uint (snd rxId) - 1))) rxIds"
    by simp
  show "\<forall>rxId\<in>set rxIds. 0 \<le> (uint txId - 1) * uint rct + (uint (snd rxId) - 1) \<and>
                          (uint txId - 1) * uint rct + (uint (snd rxId) - 1) < int (length mm)"
  proof
    fix rxId assume "rxId \<in> set rxIds"
    with m obtain y where "?f rxId = Inr y" by (blast dest: mapM_Inr_set)
    then have "0 \<le> (uint txId - 1) * uint rct + uint (snd rxId) - 1 \<and>
               (uint txId - 1) * uint rct + uint (snd rxId) - 1 < int (length mm)"
      by (auto dest: vec_at_Inr)
    then show "0 \<le> (uint txId - 1) * uint rct + (uint (snd rxId) - 1) \<and>
               (uint txId - 1) * uint rct + (uint (snd rxId) - 1) < int (length mm)"
      by simp
  qed
qed

lemma snr_cells_Inr:
  "snr_cells E ms js k0 = Inr vs \<Longrightarrow>
   length vs = length js \<and>
   (\<forall>n<length js. js ! n < length ms \<and>
        vs ! n = RatioToDb E (snd (ms ! (js ! n)) ! unat (k0 + of_nat n)))"
proof (induction js arbitrary: k0 vs)
  case Nil
  then show ?case by simp
next
  case (Cons j js)
  from Cons.prems obtain m v vs' where
    m: "vec_at ms (int j) = Inr m" and v: "vec_at (snd m) (uint k0) = Inr v" and
    r: "snr_cells E ms js (k0 + 1) = Inr vs'" and vs: "vs = RatioToDb E v # vs'"
    by (auto split: sum.splits)
  from m have j: "j < length ms" "m = ms ! j" by (auto dest: vec_at_Inr)
  from v have "v = snd m ! nat (uint k0)" by (auto dest: vec_at_Inr)
  then have v': "v = snd m ! unat k0" by simp
  note IH = Cons.IH [OF r]
  show ?case
  proof (intro conjI allI impI)
    show "length vs = length (j # js)" using IH vs by simp
  next
    fix n assume n: "n < length (j # js)"
    show "(j # js) ! n < length ms" using n j IH by (cases n) auto
    show "vs ! n = RatioToDb E (snd (ms ! ((j # js) ! n)) ! unat (k0 + of_nat n))"
    proof (cases n)
      case 0
      then show ?thesis using vs v' j by simp
    next
      case (Suc n')
      then have "n' < length js" using n by simp
      then have "vs' ! n' = RatioToDb E (snd (ms ! (js ! n')) ! unat (k0 + 1 + of_nat n'))"
        using IH by blast
      moreover have "k0 + 1 + of_nat n' = k0 + of_nat (Suc n')" by simp
      ultimately show ?thesis using Suc vs by simp
    qed
  qed
qed

lemma length_visits: "length (visits nTx nRx) = unat nTx * unat nRx"
  by (simp add: visits_def length_concat sum_list_replicate)

lemma concat_replicate_nth:
  "k < n * length xs \<Longrightarrow> concat (replicate n xs) ! k = xs ! (k mod length xs)"
proof (induction n arbitrary: k)
  case 0
  then show ?case by simp
next
  case (Suc n)
  show ?case
  proof (cases "k < length xs")
    case True
    then show ?thesis by (simp add: nth_append)
  next
    case False
    then have "k - length xs < n * length xs" using Suc.prems by simp
    then have "concat (replicate n xs) ! (k - length xs) = xs ! ((k - length xs) mod length xs)"
      by (rule Suc.IH)
    moreover have "(k - length xs) mod length xs = k mod length xs"
      using False by (simp add: le_mod_geq)
    ultimately show ?thesis using False by (simp add: nth_append)
  qed
qed

lemma visits_nth: "k < unat nTx * unat nRx \<Longrightarrow> visits nTx nRx ! k = k mod unat nRx"
proof -
  assume k: "k < unat nTx * unat nRx"
  then have "0 < unat nRx" by (cases "unat nRx") auto
  then have "k mod unat nRx < unat nRx" by simp
  then show ?thesis using k concat_replicate_nth [of k "unat nTx" "[0..<unat nRx]"]
    by (simp add: visits_def)
qed

lemma entry_row_SNR:
  assumes "entry_row E P from mm nTx nRx rct entry = Inr r"
  shows "(\<forall>rxId\<in>set (snd (snd entry)).
            0 \<le> (uint (fst (snd entry)) - 1) * uint rct + (uint (snd rxId) - 1) \<and>
            (uint (fst (snd entry)) - 1) * uint rct + (uint (snd rxId) - 1) < int (length mm)) \<and>
         length (SNR r) = unat nTx * unat nRx \<and>
         (\<forall>k<unat nTx * unat nRx.
            k mod unat nRx < length (snd (snd entry)) \<and>
            SNR r ! k =
              RatioToDb E
                (snd (mm ! nat ((uint (fst (snd entry)) - 1) * uint rct +
                                (uint (snd (snd (snd entry) ! (k mod unat nRx))) - 1)))
                 ! (k mod 256)))"
proof -
  let ?rxIds = "snd (snd entry)"
  let ?txId = "fst (snd entry)"
  from assms obtain ms where
    f: "fetch_measurements mm rct ?txId ?rxIds = Inr ms" and
    w: "write_row E P (GetMimoConfigFromTxAwvId (dstWifiMac P) ?txId (GetAddress (dstWifiMac P)))
          (GetMimoConfigFromRxAwvId (srcWifiMac P) ?rxIds from) ms nTx nRx (fst entry) = Inr r"
    by (auto simp: entry_row_def split: sum.splits)
  from w obtain snrs where
    s: "snr_cells E ms (visits nTx nRx) 0 = Inr snrs" and r: "SNR r = snrs"
    by (auto simp: write_row_def split: sum.splits)
  note fm = fetch_measurements_Inr [OF f]
  note sc = snr_cells_Inr [OF s]
  have len: "length ms = length ?rxIds" using fm(1) by simp
  have cells: "k mod unat nRx < length ?rxIds \<and>
      SNR r ! k =
        RatioToDb E (snd (mm ! nat ((uint ?txId - 1) * uint rct +
                               (uint (snd (?rxIds ! (k mod unat nRx))) - 1))) ! (k mod 256))"
    if k: "k < unat nTx * unat nRx" for k
  proof -
    have kl: "k < length (visits nTx nRx)" using k by (simp add: length_visits)
    have v: "visits nTx nRx ! k = k mod unat nRx" using k by (rule visits_nth)
    have j: "k mod unat nRx < length ms" using sc kl v by auto
    have "snrs ! k = RatioToDb E (snd (ms ! (k mod unat nRx)) ! unat (0 + of_nat k :: u8))"
      using sc kl v by auto
    moreover have "unat (0 + of_nat k :: u8) = k mod 256" by (simp only: add_0 u8_of_nat_unat)
    moreover have "ms ! (k mod unat nRx) =
        mm ! nat ((uint ?txId - 1) * uint rct + (uint (snd (?rxIds ! (k mod unat nRx))) - 1))"
      using j len by (simp add: fm(1))
    ultimately show ?thesis using r j len by simp
  qed
  show ?thesis using fm(2) r sc cells by (simp add: length_visits)
qed

lemma fetch_measurements_Inr_iff:
  "(\<exists>ms. fetch_measurements mm rct txId rxIds = Inr ms) =
     (\<forall>rxId\<in>set rxIds. 0 \<le> (uint txId - 1) * uint rct + (uint (snd rxId) - 1) \<and>
                          (uint txId - 1) * uint rct + (uint (snd rxId) - 1) < int (length mm))"
proof -
  have idx: "(uint txId - 1) * uint rct + uint (snd rxId) - 1 =
             (uint txId - 1) * uint rct + (uint (snd rxId) - 1)" for rxId :: "u8 \<times> u16"
    by simp
  show ?thesis
    unfolding fetch_measurements_def mapM_Inr_iff vec_at_Inr_iff idx ..
qed

lemma config_cells_Inr_iff: "(\<exists>cs. config_cells combination n = Inr cs) = (unat n \<le> length combination)"
proof -
  have "(\<exists>cs. config_cells combination n = Inr cs) =
        (\<forall>i\<in>set [0..<unat n]. \<exists>c. vec_at combination (int i) = Inr c)"
    unfolding config_cells_def mapM_Inr_iff case_row_Inr_iff ..
  also have "\<dots> = (\<forall>i<unat n. i < length combination)"
    unfolding vec_at_Inr_iff by (simp add: Ball_def)
  also have "\<dots> = (unat n \<le> length combination)"
    by (meson linorder_not_le order_less_le_trans order_less_irrefl)
  finally show ?thesis .
qed

lemma snr_cells_Inr_iff:
  "(\<exists>vs. snr_cells E ms js k0 = Inr vs) =
     (\<forall>n<length js. js ! n < length ms \<and> unat (k0 + of_nat n) < length (snd (ms ! (js ! n))))"
proof (induction js arbitrary: k0)
  case Nil
  then show ?case by simp
next
  case (Cons j js)
  have step: "(\<exists>vs. snr_cells E ms (j # js) k0 = Inr vs) =
        (j < length ms \<and> unat k0 < length (snd (ms ! j)) \<and>
         (\<exists>vs. snr_cells E ms js (k0 + 1) = Inr vs))"
  proof (cases "j < length ms")
    case False
    then show ?thesis by (simp add: vec_at_def)
  next
    case True
    note j = True
    show ?thesis
    proof (cases "unat k0 < length (snd (ms ! j))")
      case False
      then have "\<not> uint k0 < int (length (snd (ms ! j)))"
        by (metis nat_less_iff nat_uint_eq uint_nonnegative)
      then show ?thesis using j False by (simp add: vec_at_def)
    next
      case True
      then have "uint k0 < int (length (snd (ms ! j)))"
        by (metis nat_less_iff nat_uint_eq uint_nonnegative)
      then show ?thesis using j True by (auto simp: vec_at_def split: sum.splits)
    qed
  qed
  have shift: "k0 + 1 + of_nat n = k0 + of_nat (Suc n)" for n by simp
  have "(\<forall>n<length (j # js). (j # js) ! n < length ms \<and>
            unat (k0 + of_nat n) < length (snd (ms ! ((j # js) ! n)))) =
        (j < length ms \<and> unat k0 < length (snd (ms ! j)) \<and>
         (\<forall>n<length js. js ! n < length ms \<and>
            unat (k0 + of_nat (Suc n)) < length (snd (ms ! (js ! n)))))"
    by (simp add: All_less_Suc2 del: of_nat_Suc)
  then show ?case unfolding step Cons.IH shift by simp
qed

lemma write_row_Inr_iff:
  "(\<exists>r. write_row E P tx rx ms nTx nRx ratio = Inr r) =
     (unat nTx \<le> length tx \<and> unat nRx \<le> length rx \<and>
      (\<exists>vs. snr_cells E ms (visits nTx nRx) 0 = Inr vs))"
proof (cases "config_cells tx nTx")
  case (Inl e)
  then have "\<not> (\<exists>cs. config_cells tx nTx = Inr cs)" by simp
  then have "\<not> unat nTx \<le> length tx" unfolding config_cells_Inr_iff .
  then show ?thesis using Inl by (simp add: write_row_def)
next
  case tx: (Inr txc)
  then have "\<exists>cs. config_cells tx nTx = Inr cs" by blast
  then have t: "unat nTx \<le> length tx" unfolding config_cells_Inr_iff .
  show ?thesis
  proof (cases "config_cells rx nRx")
    case (Inl e)
    then have "\<not> (\<exists>cs. config_cells rx nRx = Inr cs)" by simp
    then have "\<not> unat nRx \<le> length rx" unfolding config_cells_Inr_iff .
    then show ?thesis using tx Inl by (simp add: write_row_def)
  next
    case rx: (Inr rxc)
    then have "\<exists>cs. config_cells rx nRx = Inr cs" by blast
    then have r: "unat nRx \<le> length rx" unfolding config_cells_Inr_iff .
    show ?thesis using tx rx t r
      by (cases "snr_cells E ms (visits nTx nRx) 0") (simp_all add: write_row_def)
  qed
qed

lemma entry_row_Inr_iff:
  "(\<exists>r. entry_row E P from mm nTx nRx rct entry = Inr r) = entry_ok P from mm nTx nRx rct entry"
proof (cases "fetch_measurements mm rct (fst (snd entry)) (snd (snd entry))")
  case (Inl e)
  then have "\<not> (\<exists>ms. fetch_measurements mm rct (fst (snd entry)) (snd (snd entry)) = Inr ms)"
    by simp
  then have "\<not> entry_ok P from mm nTx nRx rct entry"
    unfolding fetch_measurements_Inr_iff entry_ok_def by blast
  then show ?thesis using Inl by (simp add: entry_row_def)
next
  case (Inr ms)
  let ?rxIds = "snd (snd entry)"
  let ?txId = "fst (snd entry)"
  let ?block = "\<lambda>rxId. mm ! nat ((uint ?txId - 1) * uint rct + (uint (snd rxId) - 1))"
  note fm = fetch_measurements_Inr [OF Inr]
  have len: "length ms = length ?rxIds" using fm(1) by simp
  have cells: "(\<exists>vs. snr_cells E ms (visits nTx nRx) 0 = Inr vs) =
      (\<forall>k<unat nTx * unat nRx.
         k mod unat nRx < length ?rxIds \<and>
         k mod 256 < length (snd (?block (?rxIds ! (k mod unat nRx)))))"
  proof -
    have "(\<exists>vs. snr_cells E ms (visits nTx nRx) 0 = Inr vs) =
          (\<forall>k<unat nTx * unat nRx. visits nTx nRx ! k < length ms \<and>
             unat (0 + of_nat k :: u8) < length (snd (ms ! (visits nTx nRx ! k))))"
      unfolding snr_cells_Inr_iff length_visits ..
    also have "\<dots> = (\<forall>k<unat nTx * unat nRx. k mod unat nRx < length ms \<and>
             k mod 256 < length (snd (ms ! (k mod unat nRx))))"
      by (simp only: add_0 u8_of_nat_unat visits_nth cong: all_cong)
    also have "\<dots> = (\<forall>k<unat nTx * unat nRx.
         k mod unat nRx < length ?rxIds \<and>
         k mod 256 < length (snd (?block (?rxIds ! (k mod unat nRx)))))"
      unfolding len by (rule all_cong) (auto simp: fm(1))
    finally show ?thesis .
  qed
  have "(\<exists>r. entry_row E P from mm nTx nRx rct entry = Inr r) =
        (\<exists>r. write_row E P
                (GetMimoConfigFromTxAwvId (dstWifiMac P) ?txId (GetAddress (dstWifiMac P)))
                (GetMimoConfigFromRxAwvId (srcWifiMac P) ?rxIds from) ms nTx nRx (fst entry) = Inr r)"
    using Inr by (simp add: entry_row_def)
  then show ?thesis
    unfolding write_row_Inr_iff cells entry_ok_def using fm(2) by blast
qed

lemma snr_cells_Inl: "snr_cells E ms js k0 = Inl e \<Longrightarrow> e = OutOfRange"
proof (induction js arbitrary: k0 e)
  case Nil
  then show ?case by simp
next
  case (Cons j js)
  show ?case
  proof (cases "vec_at ms (int j)")
    case (Inl e')
    then show ?thesis using Cons.prems by (auto dest: vec_at_Inl)
  next
    case m: (Inr m)
    show ?thesis
    proof (cases "vec_at (snd m) (uint k0)")
      case (Inl e')
      then show ?thesis using Cons.prems m by (auto dest: vec_at_Inl)
    next
      case v: (Inr v)
      show ?thesis
      proof (cases "snr_cells E ms js (k0 + 1)")
        case (Inl e')
        then have "e' = OutOfRange" by (rule Cons.IH)
        then show ?thesis using Cons.prems m v Inl by simp
      next
        case (Inr vs)
        then show ?thesis using Cons.prems m v by simp
      qed
    qed
  qed
qed

lemma config_cells_Inl:
  assumes "config_cells combination n = Inl e"
  shows "e = OutOfRange"
proof -
  from assms obtain i where
    "(case vec_at combination (int i) of
        Inl e \<Rightarrow> Inl e
      | Inr c \<Rightarrow> Inr (ucast (fst (fst c)) :: u16, ucast (snd (fst c)) :: u16, ucast (snd c) :: u16)) = Inl e"
    unfolding config_cells_def by (blast dest: mapM_Inl)
  then have "vec_at combination (int i) = Inl e" by (rule case_row_Inl)
  then show ?thesis by (rule vec_at_Inl)
qed

lemma fetch_measurements_Inl:
  assumes "fetch_measurements mm rct txId rxIds = Inl e"
  shows "e = OutOfRange"
proof -
  have "mapM (\<lambda>rxId. vec_at mm ((uint txId - 1) * uint rct + uint (snd rxId) - 1)) rxIds = Inl e"
    using assms by (simp add: fetch_measurements_def)
  then obtain rxId :: "u8 \<times> u16" where
    "vec_at mm ((uint txId - 1) * uint rct + uint (snd rxId) - 1) = Inl e"
    by (blast dest: mapM_Inl)
  then show ?thesis by (rule vec_at_Inl)
qed

lemma write_row_Inl:
  assumes "write_row E P tx rx ms nTx nRx ratio = Inl e"
  shows "e = OutOfRange"
proof (cases "config_cells tx nTx")
  case (Inl e')
  then show ?thesis using assms by (auto simp: write_row_def dest: config_cells_Inl)
next
  case tx: (Inr txc)
  show ?thesis
  proof (cases "config_cells rx nRx")
    case (Inl e')
    then show ?thesis using assms tx by (auto simp: write_row_def dest: config_cells_Inl)
  next
    case rx: (Inr rxc)
    show ?thesis
    proof (cases "snr_cells E ms (visits nTx nRx) 0")
      case (Inl e')
      then show ?thesis using assms tx rx by (auto simp: write_row_def dest: snr_cells_Inl)
    next
      case (Inr vs)
      then show ?thesis using assms tx rx by (simp add: write_row_def)
    qed
  qed
qed

lemma entry_row_Inl:
  assumes "entry_row E P from mm nTx nRx rct entry = Inl e"
  shows "e = OutOfRange"
proof (cases "fetch_measurements mm rct (fst (snd entry)) (snd (snd entry))")
  case (Inl e')
  then show ?thesis using assms by (auto simp: entry_row_def dest: fetch_measurements_Inl)
next
  case (Inr ms)
  then show ?thesis using assms by (auto simp: entry_row_def dest: write_row_Inl)
qed

lemma set_pop_order: "set (pop_order q) = set q"
  using mset_pop_order [of q] by (metis set_mset_mset)

text \<open>
  The handler returns its two traces exactly when the three loops of the header line end
  and every access of every queue element is in range; otherwise it does not return
  (a header loop runs forever) or \<open>std::out_of_range\<close> leaves it.
\<close>

lemma handler_outcome:
  fixes E parameters "from" mimoMeasurements minSnr differentRxConfigs nTxAntennas nRxAntennas
    rxCombinationsTested
  defines "H \<equiv> MuMimoMimoPhaseMeasurements E parameters from mimoMeasurements minSnr
                  differentRxConfigs nTxAntennas nRxAntennas rxCombinationsTested"
  defines "header_ends \<equiv> nTxAntennas \<noteq> 255 \<and> nRxAntennas \<noteq> 255 \<and>
                            uint nRxAntennas * uint nTxAntennas \<le> 255"
  defines "in_range \<equiv> \<forall>entry\<in>set minSnr.
              entry_ok parameters from mimoMeasurements nTxAntennas nRxAntennas
                rxCombinationsTested entry"
  shows "(\<exists>out. H = Some (Inr out)) = (header_ends \<and> in_range)"
    and "(H = Some (Inl OutOfRange)) = (header_ends \<and> \<not> in_range)"
    and "(H = None) = (\<not> header_ends)"
proof -
  let ?f = "entry_row E parameters from mimoMeasurements nTxAntennas nRxAntennas rxCombinationsTested"
  have ok: "(\<exists>rs. mapM ?f (pop_order minSnr) = Inr rs) = in_range"
    unfolding mapM_Inr_iff entry_row_Inr_iff set_pop_order in_range_def ..
  have hdr: "(\<exists>h. mimo_header nTxAntennas nRxAntennas = Some h) = header_ends"
    unfolding header_ends_def by (rule mimo_header_returns_iff)
  show "(H = None) = (\<not> header_ends)"
    unfolding hdr [symmetric] H_def MuMimoMimoPhaseMeasurements_def
    by (auto split: option.splits)
  show "(\<exists>out. H = Some (Inr out)) = (header_ends \<and> in_range)"
    unfolding hdr [symmetric] ok [symmetric] H_def MuMimoMimoPhaseMeasurements_def drain_eq
    by (auto split: option.splits sum.splits)
  show "(H = Some (Inl OutOfRange)) = (header_ends \<and> \<not> in_range)"
  proof (cases "mimo_header nTxAntennas nRxAntennas")
    case None
    then have "\<not> header_ends" using hdr by simp
    then show ?thesis using None by (simp add: H_def MuMimoMimoPhaseMeasurements_def)
  next
    case (Some h)
    then have he: header_ends using hdr by blast
    show ?thesis
    proof (cases "mapM ?f (pop_order minSnr)")
      case (Inl e)
      then obtain entry where "?f entry = Inl e" by (blast dest: mapM_Inl)
      then have e: "e = OutOfRange" by (rule entry_row_Inl)
      have "\<not> in_range" using Inl ok by auto
      then show ?thesis using Some Inl e he
        by (simp add: H_def MuMimoMimoPhaseMeasurements_def drain_eq)
    next
      case (Inr rs)
      then have in_range using ok by blast
      then show ?thesis using Some Inr
        by (simp add: H_def MuMimoMimoPhaseMeasurements_def drain_eq)
    qed
  qed
qed

lemma example_in_range:
  "\<forall>entry\<in>set example_queue. entry_ok example_mimo 7 example_sweep 1 1 2 entry"
  by (simp add: example_queue_def entry_ok_def example_mimo_def example_mac_def example_sweep_def)

lemma length_nths_le: "length (nths xs I) \<le> length xs"
  by (induction xs arbitrary: I) (auto simp: nths_Cons le_SucI)

lemma handler_returns:
  assumes "nTxAntennas \<noteq> 255" and "nRxAntennas \<noteq> 255"
    and "uint nRxAntennas * uint nTxAntennas \<le> 255"
    and "\<forall>entry\<in>set minSnr.
           entry_ok parameters from mimoMeasurements nTxAntennas nRxAntennas rxCombinationsTested entry"
  shows "\<exists>out. MuMimoMimoPhaseMeasurements E parameters from mimoMeasurements minSnr
                 differentRxConfigs nTxAntennas nRxAntennas rxCombinationsTested = Some (Inr out)"
  using assms handler_outcome(1) [of E parameters "from" mimoMeasurements minSnr differentRxConfigs
      nTxAntennas nRxAntennas rxCombinationsTested]
  by blast

text \<open>
  C3: when the three loops of the header line end and every access of every queue element
  is in range, the handler returns its two traces. The lines of the full trace are the
  lines of the queue elements taken in an order \<open>es\<close> that is descending in the minimum
  per-stream signal ratio, and the lines of the reduced trace are those of a subsequence
  of \<open>es\<close>, hence descending too. The column \<open>min_Stream_SNR\<close> of each line is the ratio
  of its element, converted to decibels.
\<close>

theorem traces_descend_by_min_quality:
  assumes "nTxAntennas \<noteq> 255" and "nRxAntennas \<noteq> 255"
    and "uint nRxAntennas * uint nTxAntennas \<le> 255"
    and "\<forall>entry\<in>set minSnr.
           entry_ok parameters from mimoMeasurements nTxAntennas nRxAntennas rxCombinationsTested entry"
  shows "\<exists>out es I.
           MuMimoMimoPhaseMeasurements E parameters from mimoMeasurements minSnr differentRxConfigs
             nTxAntennas nRxAntennas rxCombinationsTested = Some (Inr out) \<and>
           mset es = mset minSnr \<and> sorted_wrt (\<ge>) (map fst es) \<and>
           map min_Stream_SNR (rows (outputMimoPhase out)) = map (\<lambda>e. RatioToDb E (fst e)) es \<and>
           map min_Stream_SNR (rows (outputMimoPhaseR out)) =
             map (\<lambda>e. RatioToDb E (fst e)) (nths es I) \<and>
           sorted_wrt (\<ge>) (map fst (nths es I))"
proof -
  from handler_returns [OF assms] obtain out where
    h: "MuMimoMimoPhaseMeasurements E parameters from mimoMeasurements minSnr differentRxConfigs
          nTxAntennas nRxAntennas rxCombinationsTested = Some (Inr out)"
    by blast
  from traces_descend_of_result [OF h] h show ?thesis by blast
qed

theorem traces_descend_by_min_quality_witness:
  "MuMimoMimoPhaseMeasurements example_env example_mimo 7 example_sweep example_queue False 1 1 2 =
     Some (Inr example_streams) \<and>
   map min_Stream_SNR (rows (outputMimoPhase example_streams)) =
     map (\<lambda>ratio. 10 * log 10 ratio) [9 / 10, 9 / 10, 4 / 10, 1 / 10] \<and>
   map min_Stream_SNR (rows (outputMimoPhaseR example_streams)) =
     map (\<lambda>ratio. 10 * log 10 ratio) [9 / 10, 9 / 10]"
proof -
  have "\<exists>out es I.
           MuMimoMimoPhaseMeasurements example_env example_mimo 7 example_sweep example_queue False
             1 1 2 = Some (Inr out) \<and>
           mset es = mset example_queue \<and> sorted_wrt (\<ge>) (map fst es) \<and>
           map min_Stream_SNR (rows (outputMimoPhase out)) =
             map (\<lambda>e. RatioToDb example_env (fst e)) es \<and>
           map min_Stream_SNR (rows (outputMimoPhaseR out)) =
             map (\<lambda>e. RatioToDb example_env (fst e)) (nths es I) \<and>
           sorted_wrt (\<ge>) (map fst (nths es I))"
    by (rule traces_descend_by_min_quality [OF _ _ _ example_in_range]) simp_all
  then show ?thesis
    using example_run by (simp add: example_streams_def example_row_def)
qed

text \<open>
  C5 (as amended): the handler does not read \<open>kBestCombinations\<close>. When the three loops of
  the header line end and every access of every queue element is in range, it returns,
  and the full trace has one line for every element of the queue, however many there
  are; the reduced trace has at most as many, and as many when RX configurations may
  differ.
\<close>

theorem every_queue_element_is_emitted:
  assumes "nTxAntennas \<noteq> 255" and "nRxAntennas \<noteq> 255"
    and "uint nRxAntennas * uint nTxAntennas \<le> 255"
    and "\<forall>entry\<in>set minSnr.
           entry_ok parameters from mimoMeasurements nTxAntennas nRxAntennas rxCombinationsTested entry"
  shows "\<exists>out.
           MuMimoMimoPhaseMeasurements E parameters from mimoMeasurements minSnr differentRxConfigs
             nTxAntennas nRxAntennas rxCombinationsTested = Some (Inr out) \<and>
           length (rows (outputMimoPhase out)) = length minSnr \<and>
           length (rows (outputMimoPhaseR out)) \<le> length minSnr \<and>
           (differentRxConfigs \<longrightarrow> length (rows (outputMimoPhaseR out)) = length minSnr)"
proof -
  from handler_returns [OF assms] obtain out where
    h: "MuMimoMimoPhaseMeasurements E parameters from mimoMeasurements minSnr differentRxConfigs
          nTxAntennas nRxAntennas rxCombinationsTested = Some (Inr out)"
    by blast
  have full: "length (rows (outputMimoPhase out)) = length minSnr"
    using h by (rule emitted_count_of_result)
  note r = handler_rows(3) [OF h]
  have "length (rows (outputMimoPhaseR out)) \<le> length (rows (outputMimoPhase out))"
    unfolding r by (rule length_nths_le)
  moreover have "differentRxConfigs \<longrightarrow> rows (outputMimoPhaseR out) = rows (outputMimoPhase out)"
    unfolding r by (simp add: nths_all)
  ultimately show ?thesis using h full by auto
qed

theorem every_queue_element_is_emitted_witness:
  "MuMimoMimoPhaseMeasurements example_env example_mimo 7 example_sweep example_queue False 1 1 2 =
     Some (Inr example_streams) \<and>
   length (rows (outputMimoPhase example_streams)) = 4 \<and>
   length (rows (outputMimoPhaseR example_streams)) = 2"
proof -
  have "\<exists>out.
           MuMimoMimoPhaseMeasurements example_env example_mimo 7 example_sweep example_queue False
             1 1 2 = Some (Inr out) \<and>
           length (rows (outputMimoPhase out)) = length example_queue \<and>
           length (rows (outputMimoPhaseR out)) \<le> length example_queue \<and>
           (False \<longrightarrow> length (rows (outputMimoPhaseR out)) = length example_queue)"
    by (rule every_queue_element_is_emitted [OF _ _ _ example_in_range]) simp_all
  then show ?thesis
    using example_run by (simp add: example_streams_def example_queue_def)
qed

text \<open>
  C5 as stated fails: with K = 1 and four pairs in the sweep and in the queue, four lines
  are written to the full trace and two to the reduced one; neither count is min (1, 4).
\<close>

theorem emitted_count_ignores_k_counterexample:
  "MuMimoMimoPhaseMeasurements example_env example_mimo 7 example_sweep example_queue False 1 1 2 =
     Some (Inr example_streams) \<and>
   length (rows (outputMimoPhase example_streams)) \<noteq>
     min (unat (kBestCombinations (initial_globals\<lparr>kBestCombinations := 1\<rparr>))) (length example_sweep) \<and>
   length (rows (outputMimoPhaseR example_streams)) \<noteq>
     min (unat (kBestCombinations (initial_globals\<lparr>kBestCombinations := 1\<rparr>))) (length example_sweep)"
  using example_run
  by (simp add: example_streams_def example_sweep_def initial_globals_def)

text \<open>
  C2: when the three loops of the header line end and every access of every queue element
  is in range, the handler returns its two traces. Every popped element has its line in
  the full trace, in pop order. The reduced trace holds the lines at the positions \<open>I\<close>,
  where a position is in \<open>I\<close> exactly when RX configurations may differ or no earlier
  position of \<open>I\<close> (no line already written to the reduced trace) has the same TX id. So
  with \<open>differentRxConfigs\<close> the two traces have the same lines, and without it the
  elements behind the reduced trace have pairwise different TX ids.
\<close>

theorem reduced_trace_deduplicates_by_tx_id:
  assumes "nTxAntennas \<noteq> 255" and "nRxAntennas \<noteq> 255"
    and "uint nRxAntennas * uint nTxAntennas \<le> 255"
    and "\<forall>entry\<in>set minSnr.
           entry_ok parameters from mimoMeasurements nTxAntennas nRxAntennas rxCombinationsTested entry"
  shows "\<exists>out I.
           MuMimoMimoPhaseMeasurements E parameters from mimoMeasurements minSnr differentRxConfigs
             nTxAntennas nRxAntennas rxCombinationsTested = Some (Inr out) \<and>
           map Inr (rows (outputMimoPhase out)) =
             map (entry_row E parameters from mimoMeasurements nTxAntennas nRxAntennas
                    rxCombinationsTested) (pop_order minSnr) \<and>
           rows (outputMimoPhaseR out) = nths (rows (outputMimoPhase out)) I \<and>
           (\<forall>i. (i \<in> I) =
                  (differentRxConfigs \<or>
                   (\<forall>j\<in>I. j < i \<longrightarrow>
                      fst (snd (pop_order minSnr ! j)) \<noteq> fst (snd (pop_order minSnr ! i))))) \<and>
           (differentRxConfigs \<longrightarrow> rows (outputMimoPhaseR out) = rows (outputMimoPhase out)) \<and>
           (\<not> differentRxConfigs \<longrightarrow>
              distinct (map (\<lambda>e. fst (snd e)) (nths (pop_order minSnr) I)))"
proof -
  from handler_returns [OF assms] obtain out where
    h: "MuMimoMimoPhaseMeasurements E parameters from mimoMeasurements minSnr differentRxConfigs
          nTxAntennas nRxAntennas rxCombinationsTested = Some (Inr out)"
    by blast
  from reduced_trace_of_result [OF h] h show ?thesis by blast
qed

theorem reduced_trace_deduplicates_by_tx_id_witness:
  "MuMimoMimoPhaseMeasurements example_env example_mimo 7 example_sweep example_queue False 1 1 2 =
     Some (Inr example_streams) \<and>
   map (\<lambda>e. fst (snd e)) (pop_order example_queue) = [2, 1, 2, 1] \<and>
   rows (outputMimoPhase example_streams) =
     [example_row 2 (9 / 10), example_row 1 (9 / 10), example_row 2 (4 / 10), example_row 1 (1 / 10)] \<and>
   rows (outputMimoPhaseR example_streams) = [example_row 2 (9 / 10), example_row 1 (9 / 10)]"
proof -
  have "\<exists>out I.
           MuMimoMimoPhaseMeasurements example_env example_mimo 7 example_sweep example_queue False
             1 1 2 = Some (Inr out) \<and>
           map Inr (rows (outputMimoPhase out)) =
             map (entry_row example_env example_mimo 7 example_sweep 1 1 2) (pop_order example_queue) \<and>
           rows (outputMimoPhaseR out) = nths (rows (outputMimoPhase out)) I \<and>
           (\<forall>i. (i \<in> I) =
                  (False \<or>
                   (\<forall>j\<in>I. j < i \<longrightarrow>
                      fst (snd (pop_order example_queue ! j)) \<noteq>
                      fst (snd (pop_order example_queue ! i))))) \<and>
           (False \<longrightarrow> rows (outputMimoPhaseR out) = rows (outputMimoPhase out)) \<and>
           (\<not> False \<longrightarrow>
              distinct (map (\<lambda>e. fst (snd e)) (nths (pop_order example_queue) I)))"
    by (rule reduced_trace_deduplicates_by_tx_id [OF _ _ _ example_in_range]) simp_all
  then show ?thesis using example_run by (simp add: example_streams_def example_pop_order)
qed

text \<open>
  C1: when the three loops of the header line end and every access of every queue element
  is in range, the handler returns, and the line of the \<open>n\<close>-th popped element (TX id
  \<open>txId\<close>, RX ids \<open>rxIds\<close>) holds, at its \<open>k\<close>-th SNR position, a value of the sweep
  element at index \<open>(txId - 1) * rxCombinationsTested + (rxId - 1)\<close>, where \<open>rxId\<close> is the
  id of the RX antenna visited at that position. The lines of the reduced trace are
  lines of the full trace.
\<close>

theorem emitted_measurements_are_the_indexed_blocks:
  assumes "nTxAntennas \<noteq> 255" and "nRxAntennas \<noteq> 255"
    and "uint nRxAntennas * uint nTxAntennas \<le> 255"
    and "\<forall>entry\<in>set minSnr.
           entry_ok parameters from mimoMeasurements nTxAntennas nRxAntennas rxCombinationsTested entry"
  shows "\<exists>out I.
           MuMimoMimoPhaseMeasurements E parameters from mimoMeasurements minSnr differentRxConfigs
             nTxAntennas nRxAntennas rxCombinationsTested = Some (Inr out) \<and>
           length (rows (outputMimoPhase out)) = length (pop_order minSnr) \<and>
           (\<forall>n<length (pop_order minSnr).
              length (SNR (rows (outputMimoPhase out) ! n)) = unat nTxAntennas * unat nRxAntennas \<and>
              (\<forall>k<unat nTxAntennas * unat nRxAntennas.
                 SNR (rows (outputMimoPhase out) ! n) ! k =
                   RatioToDb E
                     (snd (mimoMeasurements !
                             nat ((uint (fst (snd (pop_order minSnr ! n))) - 1) *
                                    uint rxCombinationsTested +
                                  (uint (snd (snd (snd (pop_order minSnr ! n)) !
                                                (k mod unat nRxAntennas))) - 1)))
                      ! (k mod 256)))) \<and>
           rows (outputMimoPhaseR out) = nths (rows (outputMimoPhase out)) I"
proof -
  from handler_returns [OF assms] obtain out where
    h: "MuMimoMimoPhaseMeasurements E parameters from mimoMeasurements minSnr differentRxConfigs
          nTxAntennas nRxAntennas rxCombinationsTested = Some (Inr out)"
    by blast
  note hr = handler_rows [OF h]
  have cells: "length (SNR (rows (outputMimoPhase out) ! n)) = unat nTxAntennas * unat nRxAntennas \<and>
              (\<forall>k<unat nTxAntennas * unat nRxAntennas.
                 SNR (rows (outputMimoPhase out) ! n) ! k =
                   RatioToDb E
                     (snd (mimoMeasurements !
                             nat ((uint (fst (snd (pop_order minSnr ! n))) - 1) *
                                    uint rxCombinationsTested +
                                  (uint (snd (snd (snd (pop_order minSnr ! n)) !
                                                (k mod unat nRxAntennas))) - 1)))
                      ! (k mod 256)))"
    if n: "n < length (pop_order minSnr)" for n
  proof -
    have "entry_row E parameters from mimoMeasurements nTxAntennas nRxAntennas rxCombinationsTested
            (pop_order minSnr ! n) = Inr (rows (outputMimoPhase out) ! n)"
      using hr(1) n by (rule mapM_nth)
    from entry_row_SNR [OF this] show ?thesis by blast
  qed
  show ?thesis
    using h hr(2) hr(3) cells by blast
qed

theorem emitted_measurements_are_the_indexed_blocks_witness:
  "MuMimoMimoPhaseMeasurements example_env example_mimo 7 example_sweep example_queue False 1 1 2 =
     Some (Inr example_streams) \<and>
   pop_order example_queue ! 0 = (9 / 10, 2, [(1, 2)]) \<and>
   nat ((uint (2 :: u16) - 1) * uint (2 :: u8) + (uint (2 :: u16) - 1)) = 3 \<and>
   SNR (rows (outputMimoPhase example_streams) ! 0) =
     [RatioToDb example_env (snd (example_sweep ! 3) ! 0)]"
proof -
  have "\<exists>out I.
           MuMimoMimoPhaseMeasurements example_env example_mimo 7 example_sweep example_queue False
             1 1 2 = Some (Inr out) \<and>
           length (rows (outputMimoPhase out)) = length (pop_order example_queue) \<and>
           (\<forall>n<length (pop_order example_queue).
              length (SNR (rows (outputMimoPhase out) ! n)) = unat (1 :: u8) * unat (1 :: u8) \<and>
              (\<forall>k<unat (1 :: u8) * unat (1 :: u8).
                 SNR (rows (outputMimoPhase out) ! n) ! k =
                   RatioToDb example_env
                     (snd (example_sweep !
                             nat ((uint (fst (snd (pop_order example_queue ! n))) - 1) *
                                    uint (2 :: u8) +
                                  (uint (snd (snd (snd (pop_order example_queue ! n)) !
                                                (k mod unat (1 :: u8)))) - 1)))
                      ! (k mod 256)))) \<and>
           rows (outputMimoPhaseR out) = nths (rows (outputMimoPhase out)) I"
    by (rule emitted_measurements_are_the_indexed_blocks [OF _ _ _ example_in_range]) simp_all
  then show ?thesis
    using example_run
    by (simp add: example_pop_order example_streams_def example_row_def example_env_def
          example_sweep_def)
qed















end
